theory Spec2Isabelle
  imports Main
begin

section \<open>Errors, log entries and formatted text\<close>

text \<open>
  A Go \<^verbatim>\<open>error\<close> is modelled by its message; \<^verbatim>\<open>nil\<close> is \<open>None\<close> of
  \<open>error option\<close>. \<^verbatim>\<open>fmt.Errorf("...: %w", err)\<close> puts the wrapped message after the
  prefix.
\<close>

type_synonym error = string

text \<open>
  The logrus logger is modelled by what it has written: the entries, oldest first, each
  with its level, its fields (\<^verbatim>\<open>WithError\<close>, \<^verbatim>\<open>WithField\<close>) and its message.
\<close>

datatype Level = InfoLevel | WarnLevel | ErrorLevel

datatype Entry = Entry (level: Level) (entry_fields: "(string \<times> string) list") (message: string)

type_synonym Logger = "Entry list"

definition dquote :: char where
  "dquote = CHR 0x22"

definition squote :: char where
  "squote = CHR 0x27"

text \<open>\<^verbatim>\<open>"%s"\<close> and \<^verbatim>\<open>'%s'\<close> of a format string.\<close>

definition dq :: "string \<Rightarrow> string" where
  "dq s = dquote # s @ [dquote]"

definition sq :: "string \<Rightarrow> string" where
  "sq s = squote # s @ [squote]"

text \<open>\<^verbatim>\<open>strings.Join\<close>.\<close>

fun Join :: "string list \<Rightarrow> string \<Rightarrow> string" where
  "Join [] sep = []"
| "Join [x] sep = x"
| "Join (x # y # ys) sep = x @ sep @ Join (y # ys) sep"

text \<open>\<^verbatim>\<open>%s\<close> applied to a \<^verbatim>\<open>[]string\<close>: the elements between brackets, separated by spaces.\<close>

definition fmt_strings :: "string list \<Rightarrow> string" where
  "fmt_strings xs = ''['' @ Join xs '' '' @ '']''"

section \<open>Changesets and the functions of the applier that axon.go calls\<close>

text \<open>
  The switch of \<^verbatim>\<open>processChange\<close> names three kinds and has no default branch;
  \<open>ChangesetKindOther\<close> stands for every other value of the kind.
\<close>

datatype ChangesetKind =
  ChangesetKindInsert | ChangesetKindUpdate | ChangesetKindDelete | ChangesetKindOther

text \<open>
  axon.go reads the fields \<^verbatim>\<open>ID\<close>, \<^verbatim>\<open>Kind\<close>, \<^verbatim>\<open>Schema\<close> and \<^verbatim>\<open>Table\<close> of a changeset.
\<close>

text \<open>
  Modelled from the spec: the declaration of \<^verbatim>\<open>Changeset\<close> is missing from src/. The
  two value maps are \<open>new_values\<close> and \<open>old_values\<close> of the data model (column name and
  value, as text); axon.go does not read them.
\<close>

record Changeset =
  ID :: int
  Kind :: ChangesetKind
  Schema :: string
  Table :: string
  NewValues :: "(string \<times> string) list"
  OldValues :: "(string \<times> string) list"

text \<open>
  \<^verbatim>\<open>getPrimaryKeyForChange\<close>, \<^verbatim>\<open>insertRow\<close>, \<^verbatim>\<open>updateRow\<close>, \<^verbatim>\<open>deleteRow\<close> and
  \<^verbatim>\<open>IsLatestChangeSet\<close> are called by axon.go and defined elsewhere. They are
  parameters of the model, with the signatures of their call sites:
  \<^item> \<open>'tgt\<close> is the state of the target database; a row function returns its error and
    the state it leaves;
  \<^item> \<open>'src\<close> is the state of the source database at the moment a changeset is received,
    read by \<^verbatim>\<open>insertRow\<close> and \<^verbatim>\<open>IsLatestChangeSet\<close>;
  \<^item> \<^verbatim>\<open>getPrimaryKeyForChange\<close> returns both of its results, the key and the error, as
    the Go function does.
\<close>

record ('src, 'tgt) Deps =
  getPrimaryKeyForChange :: "Changeset \<Rightarrow> string list \<times> error option"
  insertRow :: "'src \<Rightarrow> 'tgt \<Rightarrow> Changeset \<Rightarrow> error option \<times> 'tgt"
  updateRow :: "'tgt \<Rightarrow> Changeset \<Rightarrow> string list \<Rightarrow> error option \<times> 'tgt"
  deleteRow :: "'tgt \<Rightarrow> Changeset \<Rightarrow> string list \<Rightarrow> error option \<times> 'tgt"
  IsLatestChangeSet :: "'src \<Rightarrow> int \<Rightarrow> error + bool"

text \<open>\<^verbatim>\<open>a.Logger.WithError(err).WithField("table", change.Table).Errorf(...)\<close>\<close>

definition log_table_error :: "Logger \<Rightarrow> error \<Rightarrow> string \<Rightarrow> string \<Rightarrow> Logger" where
  "log_table_error lg err tbl msg =
     lg @ [Entry ErrorLevel [(''error'', err), (''table'', tbl)] msg]"

definition processDelete ::
  "('src, 'tgt) Deps \<Rightarrow> Logger \<Rightarrow> 'tgt \<Rightarrow> Changeset \<Rightarrow> Logger \<times> 'tgt" where
  "processDelete d lg targetDB change =
     (let (pk, err) = getPrimaryKeyForChange d change;
          lg1 = (case err of
                   None \<Rightarrow> lg
                 | Some e \<Rightarrow> log_table_error lg e (Table change)
                     (''unable to process DELETE for table '' @ sq (Table change) @
                      '', changeset has no primary key''));
          (err2, targetDB') = deleteRow d targetDB change pk;
          lg2 = (case err2 of
                   None \<Rightarrow> lg1
                 | Some e \<Rightarrow> log_table_error lg1 e (Table change)
                     (''failed to DELETE row for table '' @ sq (Table change) @
                      '' (pk: '' @ fmt_strings pk @ '')''))
      in (lg2, targetDB'))"

definition processInsert ::
  "('src, 'tgt) Deps \<Rightarrow> Logger \<Rightarrow> 'src \<Rightarrow> 'tgt \<Rightarrow> Changeset \<Rightarrow> Logger \<times> 'tgt" where
  "processInsert d lg sourceDB targetDB change =
     (let (err, targetDB') = insertRow d sourceDB targetDB change;
          lg1 = (case err of
                   None \<Rightarrow> lg
                 | Some e \<Rightarrow> log_table_error lg e (Table change)
                     (''failed to INSERT row for table '' @ sq (Table change)))
      in (lg1, targetDB'))"

definition processUpdate ::
  "('src, 'tgt) Deps \<Rightarrow> Logger \<Rightarrow> 'tgt \<Rightarrow> Changeset \<Rightarrow> Logger \<times> 'tgt" where
  "processUpdate d lg targetDB change =
     (let (pk, err) = getPrimaryKeyForChange d change;
          lg1 = (case err of
                   None \<Rightarrow> lg
                 | Some e \<Rightarrow> log_table_error lg e (Table change)
                     (''unable to process UPDATE for table '' @ sq (Table change) @
                      '', changeset has no primary key''));
          (err2, targetDB') = updateRow d targetDB change pk;
          lg2 = (case err2 of
                   None \<Rightarrow> lg1
                 | Some e \<Rightarrow> log_table_error lg1 e (Table change)
                     (''failed to UPDATE row for table '' @ sq (Table change) @
                      '' (pk: '' @ fmt_strings pk @ '')''))
      in (lg2, targetDB'))"

definition processChange ::
  "('src, 'tgt) Deps \<Rightarrow> Logger \<Rightarrow> 'src \<Rightarrow> 'tgt \<Rightarrow> Changeset \<Rightarrow> Logger \<times> 'tgt" where
  "processChange d lg sourceDB targetDB change =
     (case Kind change of
        ChangesetKindInsert \<Rightarrow> processInsert d lg sourceDB targetDB change
      | ChangesetKindUpdate \<Rightarrow> processUpdate d lg targetDB change
      | ChangesetKindDelete \<Rightarrow> processDelete d lg targetDB change
      | ChangesetKindOther \<Rightarrow> (lg, targetDB))"

text \<open>
  The errors that arise while a changeset is applied, in the order they arise: those
  that \<^verbatim>\<open>getPrimaryKeyForChange\<close> and the row function return.
\<close>

definition opt_list :: "'a option \<Rightarrow> 'a list" where
  "opt_list x = (case x of None \<Rightarrow> [] | Some v \<Rightarrow> [v])"

definition apply_errors ::
  "('src, 'tgt) Deps \<Rightarrow> 'src \<Rightarrow> 'tgt \<Rightarrow> Changeset \<Rightarrow> error list" where
  "apply_errors d sourceDB targetDB change =
     (case Kind change of
        ChangesetKindInsert \<Rightarrow> opt_list (fst (insertRow d sourceDB targetDB change))
      | ChangesetKindUpdate \<Rightarrow>
          opt_list (snd (getPrimaryKeyForChange d change)) @
          opt_list (fst (updateRow d targetDB change (fst (getPrimaryKeyForChange d change))))
      | ChangesetKindDelete \<Rightarrow>
          opt_list (snd (getPrimaryKeyForChange d change)) @
          opt_list (fst (deleteRow d targetDB change (fst (getPrimaryKeyForChange d change))))
      | ChangesetKindOther \<Rightarrow> [])"

text \<open>The errors the entries of a log carry in their \<^verbatim>\<open>error\<close> field.\<close>

definition logged_errors :: "Logger \<Rightarrow> error list" where
  "logged_errors lg =
     concat (map (\<lambda>en. map snd (filter (\<lambda>kv. fst kv = ''error'') (entry_fields en))) lg)"

section \<open>The configuration\<close>

text \<open>
  The fields of \<^verbatim>\<open>AxonConfig\<close>, in the order of the declaration. \<^verbatim>\<open>Run\<close> also reads
  \<^verbatim>\<open>a.Config.StartFromID\<close>, which the declaration among the sources does not have.
\<close>

text \<open>
  Modelled from the spec: the field \<open>StartFromID\<close> is missing from the declaration of
  \<^verbatim>\<open>AxonConfig\<close> under src/. It is the integer option \<^verbatim>\<open>AXON_START_FROM_ID\<close> of the
  configuration, the initial cursor floor. The other fields are those of the declaration.
\<close>

record AxonConfig =
  SourceDBHost :: string
  SourceDBPort :: int
  SourceDBName :: string
  SourceDBUser :: string
  SourceDBPass :: string
  TargetDBHost :: string
  TargetDBPort :: int
  TargetDBName :: string
  TargetDBUser :: string
  TargetDBPass :: string
  TargetDBSchema :: string
  ShutdownAfterLastChangeset :: bool
  StartFromID :: int

text \<open>
  \<^verbatim>\<open>NewAxonConfigFromEnv\<close> fills the configuration with \<^verbatim>\<open>envconfig.Process("axon", &config)\<close>.
  The library is not part of the repository. Its documented behaviour, field by field:
  the key is the prefix and the name of the \<^verbatim>\<open>envconfig\<close> tag, in upper case; when that
  variable is not set the library looks the tag name up without the prefix; when neither
  is set the field takes the \<^verbatim>\<open>default\<close> tag if it has one and stays at its zero value
  otherwise; the text is converted to the type of the field, and a text that does not
  convert ends the processing with an error that names the prefixed key. In the model
  \<^item> the environment maps the name of a variable to its value (\<open>None\<close>: not set; a
    variable set to the empty string is \<open>Some []\<close>);
  \<^item> the conversions of integers and booleans (\<^verbatim>\<open>strconv\<close>) are parameters, each giving
    the value or the detail of its error.
\<close>

type_synonym Env = "string \<Rightarrow> string option"

definition field_text :: "Env \<Rightarrow> string \<Rightarrow> string \<Rightarrow> string \<Rightarrow> string option" where
  "field_text env key alt def =
     (case env key of
        Some v \<Rightarrow> Some v
      | None \<Rightarrow>
          (case env alt of
             Some v \<Rightarrow> Some v
           | None \<Rightarrow> if def \<noteq> [] then Some def else None))"

definition parse_error :: "string \<Rightarrow> string \<Rightarrow> string \<Rightarrow> string \<Rightarrow> string \<Rightarrow> error" where
  "parse_error key field v typ details =
     ''envconfig.Process: assigning '' @ key @ '' to '' @ field @ '': converting '' @ sq v @
     '' to type '' @ typ @ ''. details: '' @ details"

definition string_field :: "Env \<Rightarrow> string \<Rightarrow> string \<Rightarrow> string \<Rightarrow> string" where
  "string_field env key alt def =
     (case field_text env key alt def of None \<Rightarrow> [] | Some v \<Rightarrow> v)"

definition int_field ::
  "(string \<Rightarrow> error + int) \<Rightarrow> Env \<Rightarrow> string \<Rightarrow> string \<Rightarrow> string \<Rightarrow> string \<Rightarrow> error + int"
  where
  "int_field ParseInt env key alt field typ =
     (case field_text env key alt [] of
        None \<Rightarrow> Inr 0
      | Some v \<Rightarrow>
          (case ParseInt v of
             Inl details \<Rightarrow> Inl (parse_error key field v typ details)
           | Inr n \<Rightarrow> Inr n))"

definition bool_field ::
  "(string \<Rightarrow> error + bool) \<Rightarrow> Env \<Rightarrow> string \<Rightarrow> string \<Rightarrow> string \<Rightarrow> error + bool" where
  "bool_field ParseBool env key alt field =
     (case field_text env key alt [] of
        None \<Rightarrow> Inr False
      | Some v \<Rightarrow>
          (case ParseBool v of
             Inl details \<Rightarrow> Inl (parse_error key field v ''bool'' details)
           | Inr b \<Rightarrow> Inr b))"

definition config_error :: "error \<Rightarrow> error" where
  "config_error e = ''failed to process environment config: '' @ e"

text \<open>
  The fields are processed in the order of the declaration; a string field cannot fail,
  so the first error is that of the first numeric or boolean field that does not convert.
\<close>

definition NewAxonConfigFromEnv ::
  "(string \<Rightarrow> error + int) \<Rightarrow> (string \<Rightarrow> error + bool) \<Rightarrow> Env \<Rightarrow> error + AxonConfig" where
  "NewAxonConfigFromEnv ParseInt ParseBool env =
     (case int_field ParseInt env ''AXON_SOURCE_DB_PORT'' ''SOURCE_DB_PORT'' ''SourceDBPort''
             ''int'' of
        Inl e \<Rightarrow> Inl (config_error e)
      | Inr sourcePort \<Rightarrow>
     (case int_field ParseInt env ''AXON_TARGET_DB_PORT'' ''TARGET_DB_PORT'' ''TargetDBPort''
             ''int'' of
        Inl e \<Rightarrow> Inl (config_error e)
      | Inr targetPort \<Rightarrow>
     (case bool_field ParseBool env ''AXON_SHUTDOWN_AFTER_LAST_CHANGESET''
             ''SHUTDOWN_AFTER_LAST_CHANGESET'' ''ShutdownAfterLastChangeset'' of
        Inl e \<Rightarrow> Inl (config_error e)
      | Inr drain \<Rightarrow>
     (case int_field ParseInt env ''AXON_START_FROM_ID'' ''START_FROM_ID'' ''StartFromID''
             ''int64'' of
        Inl e \<Rightarrow> Inl (config_error e)
      | Inr start \<Rightarrow>
          Inr \<lparr>SourceDBHost = string_field env ''AXON_SOURCE_DB_HOST'' ''SOURCE_DB_HOST'' [],
               SourceDBPort = sourcePort,
               SourceDBName = string_field env ''AXON_SOURCE_DB_NAME'' ''SOURCE_DB_NAME'' [],
               SourceDBUser = string_field env ''AXON_SOURCE_DB_USER'' ''SOURCE_DB_USER'' [],
               SourceDBPass = string_field env ''AXON_SOURCE_DB_PASS'' ''SOURCE_DB_PASS'' [],
               TargetDBHost = string_field env ''AXON_TARGET_DB_HOST'' ''TARGET_DB_HOST'' [],
               TargetDBPort = targetPort,
               TargetDBName = string_field env ''AXON_TARGET_DB_NAME'' ''TARGET_DB_NAME'' [],
               TargetDBUser = string_field env ''AXON_TARGET_DB_USER'' ''TARGET_DB_USER'' [],
               TargetDBPass = string_field env ''AXON_TARGET_DB_PASS'' ''TARGET_DB_PASS'' [],
               TargetDBSchema =
                 string_field env ''AXON_TARGET_DB_SCHEMA'' ''TARGET_DB_SCHEMA'' ''public'',
               ShutdownAfterLastChangeset = drain,
               StartFromID = start\<rparr>))))"

section \<open>Run: the apply loop\<close>

datatype Signal = Interrupt | SIGTERM

text \<open>
  What \<^verbatim>\<open>Run\<close> changes while it loops: the logger, the target database and the
  shutdown channel. The channel is the list of signals it holds, oldest first; \<^verbatim>\<open>Run\<close>
  makes it with capacity 1.
\<close>

record 'tgt Axon =
  Logger :: Logger
  targetDB :: 'tgt
  shutdownCh :: "Signal list"

definition shutdownCh_cap :: nat where
  "shutdownCh_cap = 1"

text \<open>
  The loop is a \<^verbatim>\<open>select\<close> over three channels. Its environment is a schedule: the
  list of what happens, in order.
  \<^item> \<open>OsSignal s\<close>: the operating system raises \<open>s\<close>, and \<^verbatim>\<open>signal.Notify\<close> relays
    it into the shutdown channel without blocking (a signal that finds the channel full
    is dropped). No case of the \<^verbatim>\<open>select\<close> is taken by this.
  \<^item> \<open>Quit\<close>: the \<^verbatim>\<open>select\<close> takes \<^verbatim>\<open>case <-a.shutdownCh\<close>. The case can be taken
    only while the channel holds a signal; on an empty channel the event is passed over.
  \<^item> \<open>ListenerError e\<close>: the \<^verbatim>\<open>select\<close> takes \<^verbatim>\<open>case err := <-errs\<close>.
  \<^item> \<open>Change c s\<close>: the \<^verbatim>\<open>select\<close> takes \<^verbatim>\<open>case change := <-changes\<close>, the source
    database being in state \<open>s\<close>.
  When several channels are ready Go takes any one of them, so every schedule is a
  behaviour of the loop. At the end of the schedule nothing more arrives from outside:
  the \<^verbatim>\<open>select\<close> takes the shutdown case if the channel holds a signal and waits forever
  otherwise.
\<close>

datatype 'src Event =
  OsSignal Signal | Quit | ListenerError error | Change Changeset 'src

text \<open>
  How a call of \<^verbatim>\<open>Run\<close> ends: it returns its error (\<open>None\<close> for \<^verbatim>\<open>nil\<close>), it waits in
  the \<^verbatim>\<open>select\<close> forever, or it blocks forever in the send of \<^verbatim>\<open>a.Shutdown()\<close>, which
  no other goroutine receives.
\<close>

datatype RunResult = Returned "error option" | Waiting | SendBlocked

text \<open>\<^verbatim>\<open>signal.Notify\<close>'s relay: a non-blocking send.\<close>

definition notify :: "Signal \<Rightarrow> 'tgt Axon \<Rightarrow> 'tgt Axon" where
  "notify s a =
     (if length (shutdownCh a) < shutdownCh_cap
      then a\<lparr>shutdownCh := shutdownCh a @ [s]\<rparr> else a)"

text \<open>
  \<^verbatim>\<open>a.Shutdown()\<close>: a blocking send of \<^verbatim>\<open>SIGTERM\<close>. \<open>None\<close> when the channel is full:
  the sender is the goroutine of \<^verbatim>\<open>Run\<close>, the only receiver.
\<close>

definition Shutdown :: "'tgt Axon \<Rightarrow> 'tgt Axon option" where
  "Shutdown a =
     (if length (shutdownCh a) < shutdownCh_cap
      then Some (a\<lparr>shutdownCh := shutdownCh a @ [SIGTERM]\<rparr>) else None)"

text \<open>
  The branch \<^verbatim>\<open>case <-a.shutdownCh\<close>: one signal is received, the message is logged
  (with \<^verbatim>\<open>Logger.Error\<close>), the listener and the connections are closed, \<^verbatim>\<open>nil\<close> is
  returned.
\<close>

definition on_shutdown :: "'tgt Axon \<Rightarrow> RunResult \<times> 'tgt Axon" where
  "on_shutdown a =
     (Returned None,
      a\<lparr>shutdownCh := tl (shutdownCh a),
        Logger := Logger a @ [Entry ErrorLevel [] ''shutting down...'']\<rparr>)"

text \<open>The schema override at the head of the branch \<^verbatim>\<open>case change := <-changes\<close>.\<close>

definition override_schema :: "AxonConfig \<Rightarrow> Changeset \<Rightarrow> Changeset" where
  "override_schema cfg change =
     (if TargetDBSchema cfg \<noteq> [] then change\<lparr>Schema := TargetDBSchema cfg\<rparr> else change)"

text \<open>\<^verbatim>\<open>a.processChange(sourceDBConn, targetDBConn, change)\<close> on the state of \<^verbatim>\<open>Run\<close>.\<close>

definition apply_change ::
  "('src, 'tgt) Deps \<Rightarrow> 'tgt Axon \<Rightarrow> 'src \<Rightarrow> Changeset \<Rightarrow> 'tgt Axon" where
  "apply_change d a sourceDB change =
     (let (lg, t) = processChange d (Logger a) sourceDB (targetDB a) change
      in a\<lparr>Logger := lg, targetDB := t\<rparr>)"

definition log_sync_complete :: "'tgt Axon \<Rightarrow> 'tgt Axon" where
  "log_sync_complete a =
     a\<lparr>Logger := Logger a @
        [Entry InfoLevel [(''component'', ''warp_pipe'')] ''sync is complete. shutting down...'']\<rparr>"

text \<open>
  One pass through the branch \<^verbatim>\<open>case change := <-changes\<close>: the loop goes on with a
  new state, or \<^verbatim>\<open>Run\<close> ends there.
\<close>

datatype 'tgt Step = Continue "'tgt Axon" | Stop RunResult "'tgt Axon"

definition on_change ::
  "AxonConfig \<Rightarrow> ('src, 'tgt) Deps \<Rightarrow> 'tgt Axon \<Rightarrow> Changeset \<Rightarrow> 'src \<Rightarrow> 'tgt Step" where
  "on_change cfg d a c sourceDB =
     (let change = override_schema cfg c;
          a1 = apply_change d a sourceDB change
      in if ShutdownAfterLastChangeset cfg then
           (case IsLatestChangeSet d sourceDB (ID change) of
              Inl err \<Rightarrow>
                Stop (Returned (Some (''failed to determine if the sync is complete: '' @ err))) a1
            | Inr isLatest \<Rightarrow>
                if isLatest then
                  (case Shutdown (log_sync_complete a1) of
                     None \<Rightarrow> Stop SendBlocked (log_sync_complete a1)
                   | Some a2 \<Rightarrow> Continue a2)
                else Continue a1)
         else Continue a1)"


fun Run_loop ::
  "AxonConfig \<Rightarrow> ('src, 'tgt) Deps \<Rightarrow> 'tgt Axon \<Rightarrow> 'src Event list \<Rightarrow> RunResult \<times> 'tgt Axon"
  where
  "Run_loop cfg d a [] =
     (if shutdownCh a = [] then (Waiting, a) else on_shutdown a)"
| "Run_loop cfg d a (OsSignal s # evs) = Run_loop cfg d (notify s a) evs"
| "Run_loop cfg d a (Quit # evs) =
     (if shutdownCh a = [] then Run_loop cfg d a evs else on_shutdown a)"
| "Run_loop cfg d a (ListenerError err # evs) =
     (Returned (Some (''listener received an error: '' @ err)), a)"
| "Run_loop cfg d a (Change c sourceDB # evs) =
     (case on_change cfg d a c sourceDB of
        Continue a' \<Rightarrow> Run_loop cfg d a' evs
      | Stop r a' \<Rightarrow> (r, a'))"

text \<open>
  The calls of \<^verbatim>\<open>Run\<close> before the loop, each with the error it returns: opening the two
  connections, \<^verbatim>\<open>checkTargetVersion\<close>, \<^verbatim>\<open>printSourceStats\<close>, \<^verbatim>\<open>loadPrimaryKeys\<close>,
  \<^verbatim>\<open>loadColumnSequences\<close>, \<^verbatim>\<open>loadOrphanSequences\<close>, \<^verbatim>\<open>NewWarpPipe\<close> and \<^verbatim>\<open>wp.Open\<close>.
  They are defined outside axon.go; their outcomes are an input of the model.
\<close>

record Startup =
  openSourceDB :: "error option"
  openTargetDB :: "error option"
  checkTargetVersion :: "error option"
  printSourceStats :: "error option"
  loadPrimaryKeys :: "error option"
  loadColumnSequences :: "error option"
  loadOrphanSequences :: "error option"
  NewWarpPipe :: "error option"
  wpOpen :: "error option"

text \<open>The first failing call before the loop, with the prefix \<^verbatim>\<open>Run\<close> wraps it in.\<close>

definition startup_error :: "Startup \<Rightarrow> error option" where
  "startup_error su =
     (case openSourceDB su of
        Some e \<Rightarrow> Some (''unable to connect to source database: '' @ e)
      | None \<Rightarrow>
     (case openTargetDB su of
        Some e \<Rightarrow> Some (''unable to connect to target database: '' @ e)
      | None \<Rightarrow>
     (case checkTargetVersion su of
        Some e \<Rightarrow> Some (''unable to check target database version: '' @ e)
      | None \<Rightarrow>
     (case printSourceStats su of
        Some e \<Rightarrow> Some (''unable to get source db stats: '' @ e)
      | None \<Rightarrow>
     (case loadPrimaryKeys su of
        Some e \<Rightarrow> Some (''unable to load target DB primary keys: '' @ e)
      | None \<Rightarrow>
     (case loadColumnSequences su of
        Some e \<Rightarrow> Some (''unable to load target DB column sequences: '' @ e)
      | None \<Rightarrow>
     (case loadOrphanSequences su of
        Some e \<Rightarrow> Some (''unable to load source DB orphan sequences: '' @ e)
      | None \<Rightarrow>
     (case NewWarpPipe su of
        Some e \<Rightarrow> Some (''failed to establish a warp-pipe: '' @ e)
      | None \<Rightarrow>
     (case wpOpen su of
        Some e \<Rightarrow> Some (''failed to dial the listener: '' @ e)
      | None \<Rightarrow> None)))))))))"

text \<open>
  The listener \<^verbatim>\<open>Run\<close> constructs: \<^verbatim>\<open>NewNotifyListener(StartFromID(a.Config.StartFromID))\<close>.
  The model keeps the one option it is given.
\<close>

record NotifyListener =
  startFromID :: int

definition NewNotifyListener :: "int \<Rightarrow> NotifyListener" where
  "NewNotifyListener start = \<lparr>startFromID = start\<rparr>"

definition Run_listener :: "AxonConfig \<Rightarrow> NotifyListener" where
  "Run_listener cfg = NewNotifyListener (StartFromID cfg)"

text \<open>
  Modelled from the spec: \<^verbatim>\<open>ListenForChanges\<close> and the listener behind it are missing
  from src/. The listener yields an ordered, de-duplicated sequence starting at
  \<open>max(cursor, start_from_id) + 1\<close>. \<open>rows\<close> are the rows of the capture table and
  \<open>cursor\<close> is the id of the highest changeset acknowledged.
\<close>

definition spec_ListenForChanges :: "NotifyListener \<Rightarrow> int \<Rightarrow> Changeset list \<Rightarrow> Changeset list"
  where
  "spec_ListenForChanges l cursor rows =
     sort_key ID (remdups (filter (\<lambda>c. max cursor (startFromID l) + 1 \<le> ID c) rows))"

definition Run ::
  "AxonConfig \<Rightarrow> ('src, 'tgt) Deps \<Rightarrow> Startup \<Rightarrow> 'tgt Axon \<Rightarrow> 'src Event list
     \<Rightarrow> RunResult \<times> 'tgt Axon" where
  "Run cfg d su a evs =
     (case startup_error su of
        Some e \<Rightarrow> (Returned (Some e), a)
      | None \<Rightarrow> Run_loop cfg d a evs)"

section \<open>A source and a target to run the applier on\<close>

text \<open>
  The row functions are not among the sources. To run the applier on concrete
  changesets they are given the behaviour the specification describes, over a target
  that records the statements executed on it and a source that answers the query for
  its highest changeset id.
\<close>

datatype Stmt =
  InsertStmt string string "(string \<times> string) list"
| UpdateStmt string string "string list"
| DeleteStmt string string "string list"

text \<open>
  Modelled from the spec: \<^verbatim>\<open>getPrimaryKeyForChange\<close> is missing from src/. The key
  values are extracted from \<open>old_values\<close> for the primary-key columns of the table; the
  extraction fails when a key column has no old value. \<open>pkeys\<close> is the cache of
  primary-key columns by table name.
\<close>

definition spec_getPrimaryKeyForChange ::
  "(string \<Rightarrow> string list) \<Rightarrow> Changeset \<Rightarrow> string list \<times> error option" where
  "spec_getPrimaryKeyForChange pkeys c =
     (let vals = map (map_of (OldValues c)) (pkeys (Table c))
      in if pkeys (Table c) = [] \<or> None \<in> set vals
         then ([], Some ''no primary key found for changeset'')
         else (map the vals, None))"

text \<open>
  Modelled from the spec: \<^verbatim>\<open>insertRow\<close> is missing from src/. It executes an INSERT
  built from \<open>new_values\<close>; the applier does not detect duplicates itself, so a replayed
  insert surfaces as the primary-key conflict the target reports.
\<close>

definition spec_insertRow ::
  "error + int \<Rightarrow> Stmt list \<Rightarrow> Changeset \<Rightarrow> error option \<times> Stmt list" where
  "spec_insertRow sourceDB t c =
     (let stmt = InsertStmt (Schema c) (Table c) (NewValues c)
      in if stmt \<in> set t
         then (Some ''duplicate key value violates unique constraint'', t)
         else (None, t @ [stmt]))"

text \<open>
  Modelled from the spec: \<^verbatim>\<open>updateRow\<close> is missing from src/. It executes one UPDATE on
  the target, keyed by the primary key it is given.
\<close>

definition spec_updateRow ::
  "Stmt list \<Rightarrow> Changeset \<Rightarrow> string list \<Rightarrow> error option \<times> Stmt list" where
  "spec_updateRow t c pk = (None, t @ [UpdateStmt (Schema c) (Table c) pk])"

text \<open>
  Modelled from the spec: \<^verbatim>\<open>deleteRow\<close> is missing from src/. It executes one DELETE on
  the target, keyed by the primary key it is given.
\<close>

definition spec_deleteRow ::
  "Stmt list \<Rightarrow> Changeset \<Rightarrow> string list \<Rightarrow> error option \<times> Stmt list" where
  "spec_deleteRow t c pk = (None, t @ [DeleteStmt (Schema c) (Table c) pk])"

text \<open>
  Modelled from the spec: \<^verbatim>\<open>IsLatestChangeSet\<close> is missing from src/. It is true when
  the id equals the current maximum changeset id on the source. The source is the
  answer to the query for that maximum: the id, or the error of a failed query.
\<close>

definition spec_IsLatestChangeSet :: "error + int \<Rightarrow> int \<Rightarrow> error + bool" where
  "spec_IsLatestChangeSet sourceDB i =
     (case sourceDB of Inl e \<Rightarrow> Inl e | Inr m \<Rightarrow> Inr (i = m))"

definition spec_deps :: "(string \<Rightarrow> string list) \<Rightarrow> (error + int, Stmt list) Deps" where
  "spec_deps pkeys =
     \<lparr>getPrimaryKeyForChange = spec_getPrimaryKeyForChange pkeys,
      insertRow = spec_insertRow,
      updateRow = spec_updateRow,
      deleteRow = spec_deleteRow,
      IsLatestChangeSet = spec_IsLatestChangeSet\<rparr>"

text \<open>One table, \<^verbatim>\<open>t\<close>, with the primary key \<^verbatim>\<open>id\<close>.\<close>

definition pkeys_t :: "string \<Rightarrow> string list" where
  "pkeys_t tbl = (if tbl = ''t'' then [''id''] else [])"

definition mk_change ::
  "int \<Rightarrow> ChangesetKind \<Rightarrow> string \<Rightarrow> (string \<times> string) list \<Rightarrow> (string \<times> string) list
     \<Rightarrow> Changeset" where
  "mk_change i k sch new old =
     \<lparr>ID = i, Kind = k, Schema = sch, Table = ''t'', NewValues = new, OldValues = old\<rparr>"

definition axon0 :: "Stmt list Axon" where
  "axon0 = \<lparr>Logger = [], targetDB = [], shutdownCh = []\<rparr>"

definition startup_ok :: Startup where
  "startup_ok =
     \<lparr>openSourceDB = None, openTargetDB = None, checkTargetVersion = None,
      printSourceStats = None, loadPrimaryKeys = None, loadColumnSequences = None,
      loadOrphanSequences = None, NewWarpPipe = None, wpOpen = None\<rparr>"

text \<open>A configuration as the integration test writes it, with and without drain mode.\<close>

definition cfg_test :: "bool \<Rightarrow> AxonConfig" where
  "cfg_test drain =
     \<lparr>SourceDBHost = ''127.0.0.1'', SourceDBPort = 5432, SourceDBName = ''test'',
      SourceDBUser = ''test'', SourceDBPass = ''test'',
      TargetDBHost = ''127.0.0.1'', TargetDBPort = 5433, TargetDBName = ''test'',
      TargetDBUser = ''test'', TargetDBPass = ''test'',
      TargetDBSchema = ''public'', ShutdownAfterLastChangeset = drain, StartFromID = 0\<rparr>"

text \<open>A configuration that replicates into the schema \<^verbatim>\<open>mirror\<close>.\<close>

definition cfg_mirror :: AxonConfig where
  "cfg_mirror = (cfg_test False)\<lparr>TargetDBSchema := ''mirror''\<rparr>"

text \<open>
  Two environments and conversions to load a configuration with: conversions that know
  the texts \<^verbatim>\<open>500\<close> and \<^verbatim>\<open>true\<close>, an environment that sets the start id and the drain
  mode, and one that sets the target schema to the empty string.
\<close>

definition ParseInt_500 :: "string \<Rightarrow> error + int" where
  "ParseInt_500 v = (if v = ''500'' then Inr 500 else Inl ''invalid syntax'')"

definition ParseBool_true :: "string \<Rightarrow> error + bool" where
  "ParseBool_true v = (if v = ''true'' then Inr True else Inl ''invalid syntax'')"

definition env_start :: Env where
  "env_start key =
     (if key = ''AXON_START_FROM_ID'' then Some ''500''
      else if key = ''AXON_SHUTDOWN_AFTER_LAST_CHANGESET'' then Some ''true''
      else None)"

definition env_no_schema :: Env where
  "env_no_schema key = (if key = ''AXON_TARGET_DB_SCHEMA'' then Some [] else None)"

text \<open>An environment that sets the target schema under the name without the prefix only.\<close>

definition env_unprefixed :: Env where
  "env_unprefixed key = (if key = ''TARGET_DB_SCHEMA'' then Some ''mirror'' else None)"

text \<open>Rows of the capture table, out of order and with one row read twice.\<close>

definition rows_demo :: "Changeset list" where
  "rows_demo =
     [mk_change 502 ChangesetKindInsert ''public'' [(''id'', ''3'')] [],
      mk_change 500 ChangesetKindInsert ''public'' [(''id'', ''1'')] [],
      mk_change 501 ChangesetKindInsert ''public'' [(''id'', ''2'')] [],
      mk_change 501 ChangesetKindInsert ''public'' [(''id'', ''2'')] []]"

section \<open>Verify: the checksum comparison\<close>

text \<open>
  \<^verbatim>\<open>Verify\<close> reads \<^verbatim>\<open>Schema\<close>, \<^verbatim>\<open>Name\<close> and \<^verbatim>\<open>PKeyFields\<close> of a \<^verbatim>\<open>db.Table\<close>. It takes
  \<^verbatim>\<open>len(table.PKeyFields)\<close> and ranges over the field with
  \<^verbatim>\<open>for position, column := range table.PKeyFields\<close>, writing \<^verbatim>\<open>pkColumns[position-1]\<close>.
\<close>

text \<open>
  Modelled from the spec: the declaration of \<^verbatim>\<open>db.Table\<close> is missing from src/. The
  data model has \<open>pkey_fields\<close> as the primary-key column names, positionally indexed;
  \<open>PKeyFields\<close> is the list of the (position, column) pairs the range loop yields, in
  the order it yields them, and its \<^verbatim>\<open>len\<close> is the number of pairs.
\<close>

record db_Table =
  TSchema :: string
  TName :: string
  PKeyFields :: "(int \<times> string) list"

text \<open>
  The qualified name of a column, as \<^verbatim>\<open>Sprintf\<close> writes it: schema, table and column,
  each between double quotes, joined by dots.
\<close>

definition qualified_column :: "string \<Rightarrow> string \<Rightarrow> string \<Rightarrow> string" where
  "qualified_column sch nm column = dq sch @ ''.'' @ dq nm @ ''.'' @ dq column"

text \<open>
  The loop that fills \<^verbatim>\<open>pkColumns\<close>. An index outside the slice panics in Go; the
  model returns the index (\<open>Inl\<close>).
\<close>

fun fill_pkColumns ::
  "string \<Rightarrow> string \<Rightarrow> (int \<times> string) list \<Rightarrow> string list \<Rightarrow> int + string list" where
  "fill_pkColumns sch nm [] pkColumns = Inr pkColumns"
| "fill_pkColumns sch nm ((position, column) # rest) pkColumns =
     (if 0 \<le> position - 1 \<and> position - 1 < int (length pkColumns)
      then fill_pkColumns sch nm rest
             (pkColumns[nat (position - 1) := qualified_column sch nm column])
      else Inl (position - 1))"

definition pkColumns_of :: "db_Table \<Rightarrow> int + string list" where
  "pkColumns_of table =
     fill_pkColumns (TSchema table) (TName table) (PKeyFields table)
       (replicate (length (PKeyFields table)) [])"

definition orderByClause :: "string list \<Rightarrow> string" where
  "orderByClause pkColumns = ''ORDER BY '' @ Join pkColumns '',''"

definition checksum_sql :: "db_Table \<Rightarrow> string list \<Rightarrow> string" where
  "checksum_sql table pkColumns =
     ''SELECT pg_md5_hashagg(md5(CAST(('' @ dq (TSchema table) @ ''.'' @ dq (TName table) @
     ''.*)AS TEXT))'' @ orderByClause pkColumns @ '') FROM '' @
     dq (TSchema table) @ ''.'' @ dq (TName table)"

text \<open>The query text for a table, or the index at which building it panics.\<close>

definition checksum_query :: "db_Table \<Rightarrow> int + string" where
  "checksum_query table =
     (case pkColumns_of table of
        Inl i \<Rightarrow> Inl i
      | Inr pkColumns \<Rightarrow> Inr (checksum_sql table pkColumns))"

datatype Conn = SourceConn | TargetConn

text \<open>
  What \<^verbatim>\<open>Verify\<close> leaves behind: the log, and the queries it has executed, each with the
  connection it was executed on, oldest first.
\<close>

record VerifyState =
  vLogger :: Logger
  queries :: "(Conn \<times> string) list"

datatype VerifyResult = VReturned "error option" | IndexPanic int

datatype VStep = VContinue VerifyState | VStop VerifyResult VerifyState

text \<open>
  A connection answers a query with the scanned checksum or with the error of
  \<^verbatim>\<open>row.Scan\<close>.
\<close>

type_synonym QueryRow = "string \<Rightarrow> error + string"

definition table_label :: "db_Table \<Rightarrow> string" where
  "table_label table = dq (TSchema table) @ ''.'' @ dq (TName table)"

definition table_dotted :: "db_Table \<Rightarrow> string" where
  "table_dotted table = TSchema table @ ''.'' @ TName table"

text \<open>The body of \<^verbatim>\<open>for _, table := range tables\<close>.\<close>

definition verify_table :: "QueryRow \<Rightarrow> QueryRow \<Rightarrow> VerifyState \<Rightarrow> db_Table \<Rightarrow> VStep" where
  "verify_table sourceDBConn targetDBConn st table =
     (let st1 = st\<lparr>vLogger := vLogger st @
                  [Entry InfoLevel [(''table'', table_label table)] ''Verifying checksum'']\<rparr>
      in if length (PKeyFields table) < 1 then
           VStop (VReturned (Some (''table '' @ table_label table @
                    '' has no primary key, cannot guarantee checksum match''))) st1
         else
           (case checksum_query table of
              Inl i \<Rightarrow> VStop (IndexPanic i) st1
            | Inr sql \<Rightarrow>
                (let st2 = st1\<lparr>queries := queries st1 @ [(SourceConn, sql)]\<rparr>
                 in case sourceDBConn sql of
                      Inl err \<Rightarrow>
                        VStop (VReturned (Some (''failed to scan the source checksum for table '' @
                                 table_dotted table @ '': '' @ err))) st2
                    | Inr sourceChecksum \<Rightarrow>
                        (let st3 = st2\<lparr>queries := queries st2 @ [(TargetConn, sql)]\<rparr>
                         in case targetDBConn sql of
                              Inl err \<Rightarrow>
                                VStop (VReturned (Some
                                  (''failed to scan the target checksum for table '' @
                                   table_dotted table @ '': '' @ err))) st3
                            | Inr targetChecksum \<Rightarrow>
                                if sourceChecksum \<noteq> targetChecksum then
                                  VStop (VReturned (Some (''checksums differ for table '' @
                                           table_dotted table))) st3
                                else VContinue st3))))"

fun vstep_state :: "VStep \<Rightarrow> VerifyState" where
  "vstep_state (VContinue st) = st"
| "vstep_state (VStop r st) = st"

fun Verify_loop ::
  "QueryRow \<Rightarrow> QueryRow \<Rightarrow> VerifyState \<Rightarrow> db_Table list \<Rightarrow> VerifyResult \<times> VerifyState" where
  "Verify_loop sourceDBConn targetDBConn st [] = (VReturned None, st)"
| "Verify_loop sourceDBConn targetDBConn st (table # tables) =
     (case verify_table sourceDBConn targetDBConn st table of
        VContinue st' \<Rightarrow> Verify_loop sourceDBConn targetDBConn st' tables
      | VStop r st' \<Rightarrow> (r, st'))"

text \<open>
  The calls of \<^verbatim>\<open>Verify\<close> before the loop: the two connections, the two calls of
  \<^verbatim>\<open>db.PrepareForDataIntegrityChecks\<close>, and \<^verbatim>\<open>db.GenerateTablesList\<close>, which selects
  the tables. They are defined outside axon.go; their outcomes are an input of the model.
\<close>

record VerifySetup =
  connectSource :: "error option"
  prepareSource :: "error option"
  connectTarget :: "error option"
  prepareTarget :: "error option"
  GenerateTablesList :: "string list \<Rightarrow> string list \<Rightarrow> string list \<Rightarrow> error + db_Table list"

definition Verify ::
  "VerifySetup \<Rightarrow> QueryRow \<Rightarrow> QueryRow \<Rightarrow> Logger \<Rightarrow> string list \<Rightarrow> string list \<Rightarrow> string list
     \<Rightarrow> VerifyResult \<times> VerifyState" where
  "Verify vs sourceDBConn targetDBConn lg schemas includeTables excludeTables =
     (let st = \<lparr>vLogger = lg, queries = []\<rparr> in
      case connectSource vs of
        Some e \<Rightarrow> (VReturned (Some (''unable to connect to source database: '' @ e)), st)
      | None \<Rightarrow>
     (case prepareSource vs of
        Some e \<Rightarrow>
          (VReturned (Some (''unable to prepare source database for Integrity checks: '' @ e)), st)
      | None \<Rightarrow>
     (case connectTarget vs of
        Some e \<Rightarrow> (VReturned (Some (''unable to connect to target database: '' @ e)), st)
      | None \<Rightarrow>
     (case prepareTarget vs of
        Some e \<Rightarrow>
          (VReturned (Some (''unable to prepare target database for Integrity checks: '' @ e)), st)
      | None \<Rightarrow>
     (case GenerateTablesList vs schemas includeTables excludeTables of
        Inl e \<Rightarrow>
          (VReturned (Some (''unable to generate the list of source tables to check: '' @ e)), st)
      | Inr tables \<Rightarrow> Verify_loop sourceDBConn targetDBConn st tables)))))"

text \<open>
  The primary-key positions of a table are those of a positional index: each of
  \<open>1, \<dots>, n\<close> once, for a key of \<open>n\<close> columns.
\<close>

definition positional :: "db_Table \<Rightarrow> bool" where
  "positional table =
     (distinct (map fst (PKeyFields table)) \<and>
      list_all (\<lambda>p. 1 \<le> p \<and> p \<le> int (length (PKeyFields table))) (map fst (PKeyFields table)))"

text \<open>
  How the loop of \<^verbatim>\<open>Verify\<close> leaves a table: \<open>None\<close> when it goes on to the next table,
  the result of \<^verbatim>\<open>Verify\<close> when it ends there.
\<close>

definition table_result :: "QueryRow \<Rightarrow> QueryRow \<Rightarrow> db_Table \<Rightarrow> VerifyResult option" where
  "table_result sourceDBConn targetDBConn table =
     (case verify_table sourceDBConn targetDBConn \<lparr>vLogger = [], queries = []\<rparr> table of
        VContinue st \<Rightarrow> None
      | VStop r st \<Rightarrow> Some r)"

definition table_stops :: "QueryRow \<Rightarrow> QueryRow \<Rightarrow> db_Table \<Rightarrow> bool" where
  "table_stops sourceDBConn targetDBConn table =
     (table_result sourceDBConn targetDBConn table \<noteq> None)"

text \<open>The two queries of a table that is compared: the same text on both connections.\<close>

definition query_pair :: "db_Table \<Rightarrow> (Conn \<times> string) list" where
  "query_pair table =
     (case checksum_query table of
        Inl i \<Rightarrow> []
      | Inr sql \<Rightarrow> [(SourceConn, sql), (TargetConn, sql)])"

text \<open>
  A list of queries in which every query on the target connection follows the same text
  on the source connection, and a query on the source without its pair can only be the
  last one.
\<close>

fun paired :: "(Conn \<times> string) list \<Rightarrow> bool" where
  "paired [] = True"
| "paired [(c, q)] = (c = SourceConn)"
| "paired ((c, q) # (c', q') # rest) =
     (c = SourceConn \<and> c' = TargetConn \<and> q = q' \<and> paired rest)"

text \<open>A source, a target and a setup to run \<^verbatim>\<open>Verify\<close> on.\<close>

definition table_t :: db_Table where
  "table_t = \<lparr>TSchema = ''public'', TName = ''t'', PKeyFields = [(1, ''id'')]\<rparr>"

definition table_orders :: db_Table where
  "table_orders =
     \<lparr>TSchema = ''public'', TName = ''orders'', PKeyFields = [(2, ''line''), (1, ''order_id'')]\<rparr>"

text \<open>A table whose only primary-key field is recorded at position 2.\<close>

definition table_gap :: db_Table where
  "table_gap = \<lparr>TSchema = ''public'', TName = ''g'', PKeyFields = [(2, ''id'')]\<rparr>"

definition table_nopk :: db_Table where
  "table_nopk = \<lparr>TSchema = ''public'', TName = ''log'', PKeyFields = []\<rparr>"

text \<open>
  The query texts \<^verbatim>\<open>Verify\<close> is expected to execute for the two tables, written out
  character by character (\<open>CHR 0x22\<close> is the double quote).
\<close>

definition sql_t :: string where
  "sql_t =
     ''SELECT pg_md5_hashagg(md5(CAST(('' @ [CHR 0x22] @ ''public'' @ [CHR 0x22] @ ''.'' @
     [CHR 0x22] @ ''t'' @ [CHR 0x22] @ ''.*)AS TEXT))ORDER BY '' @ [CHR 0x22] @
     ''public'' @ [CHR 0x22] @ ''.'' @ [CHR 0x22] @ ''t'' @ [CHR 0x22] @ ''.'' @
     [CHR 0x22] @ ''id'' @ [CHR 0x22] @ '') FROM '' @ [CHR 0x22] @ ''public'' @
     [CHR 0x22] @ ''.'' @ [CHR 0x22] @ ''t'' @ [CHR 0x22]"

definition sql_orders :: string where
  "sql_orders =
     ''SELECT pg_md5_hashagg(md5(CAST(('' @ [CHR 0x22] @ ''public'' @ [CHR 0x22] @ ''.'' @
     [CHR 0x22] @ ''orders'' @ [CHR 0x22] @ ''.*)AS TEXT))ORDER BY '' @ [CHR 0x22] @
     ''public'' @ [CHR 0x22] @ ''.'' @ [CHR 0x22] @ ''orders'' @ [CHR 0x22] @ ''.'' @
     [CHR 0x22] @ ''order_id'' @ [CHR 0x22] @ '','' @ [CHR 0x22] @ ''public'' @
     [CHR 0x22] @ ''.'' @ [CHR 0x22] @ ''orders'' @ [CHR 0x22] @ ''.'' @ [CHR 0x22] @
     ''line'' @ [CHR 0x22] @ '') FROM '' @ [CHR 0x22] @ ''public'' @ [CHR 0x22] @ ''.'' @
     [CHR 0x22] @ ''orders'' @ [CHR 0x22]"

definition setup_ok :: "db_Table list \<Rightarrow> VerifySetup" where
  "setup_ok tables =
     \<lparr>connectSource = None, prepareSource = None, connectTarget = None, prepareTarget = None,
      GenerateTablesList = (\<lambda>schemas includeTables excludeTables. Inr tables)\<rparr>"

definition conn_const :: "string \<Rightarrow> QueryRow" where
  "conn_const checksum = (\<lambda>sql. Inr checksum)"

text \<open>A connection whose checksum is \<^verbatim>\<open>abd\<close> for one query and \<^verbatim>\<open>abc\<close> for the others.\<close>

definition conn_differs_on :: "string \<Rightarrow> QueryRow" where
  "conn_differs_on q = (\<lambda>sql. if sql = q then Inr ''abd'' else Inr ''abc'')"

section \<open>Properties of the applier\<close>

text \<open>
  C1 (the code does otherwise). The claim: for an Update or Delete changeset whose
  primary key cannot be extracted, the applier logs the error and skips the change, so
  that no UPDATE or DELETE is executed for it. \<^verbatim>\<open>processDelete\<close> and \<^verbatim>\<open>processUpdate\<close>
  log the error and do not return: whatever \<^verbatim>\<open>getPrimaryKeyForChange\<close> answers, the
  target is left as \<^verbatim>\<open>deleteRow\<close> (\<^verbatim>\<open>updateRow\<close>) leaves it when called with the key that
  came with the error.
\<close>

theorem processDelete_processUpdate_do_not_skip:
  "snd (processDelete d lg t c) = snd (deleteRow d t c (fst (getPrimaryKeyForChange d c))) \<and>
   snd (processUpdate d lg t c) = snd (updateRow d t c (fst (getPrimaryKeyForChange d c)))"
  by (simp add: processDelete_def processUpdate_def Let_def split: prod.splits)

lemmas spec_deps_eval = spec_deps_def spec_getPrimaryKeyForChange_def spec_insertRow_def
  spec_updateRow_def spec_deleteRow_def spec_IsLatestChangeSet_def pkeys_t_def mk_change_def

lemmas run_eval = Run_def startup_error_def startup_ok_def cfg_test_def cfg_mirror_def on_change_def
  apply_change_def override_schema_def processChange_def processInsert_def processUpdate_def
  processDelete_def log_table_error_def axon0_def Shutdown_def shutdownCh_cap_def
  log_sync_complete_def on_shutdown_def notify_def

lemma override_schema_ID [simp]: "ID (override_schema cfg c) = ID c"
  by (simp add: override_schema_def)

lemma override_schema_Kind [simp]: "Kind (override_schema cfg c) = Kind c"
  by (simp add: override_schema_def)

lemma override_schema_Table [simp]: "Table (override_schema cfg c) = Table c"
  by (simp add: override_schema_def)





lemma shutdownCh_apply_change [simp]:
  "shutdownCh (apply_change d a s c) = shutdownCh a"
  by (simp add: apply_change_def split: prod.splits)

lemma targetDB_on_shutdown [simp]:
  "targetDB (snd (on_shutdown a)) = targetDB a"
  by (simp add: on_shutdown_def)

lemma fst_on_shutdown [simp]:
  "fst (on_shutdown a) = Returned None"
  by (simp add: on_shutdown_def)

lemma on_change_Stop:
  assumes "on_change cfg d a c s = Stop r a'"
  shows "ShutdownAfterLastChangeset cfg \<and>
         (r = SendBlocked \<or>
          (\<exists>e. IsLatestChangeSet d s (ID c) = Inl e \<and>
               r = Returned (Some (''failed to determine if the sync is complete: '' @ e))))"
  using assms
  by (auto simp: on_change_def Let_def split: if_splits sum.splits option.splits)

lemma on_change_no_drain:
  "\<not> ShutdownAfterLastChangeset cfg \<Longrightarrow>
     on_change cfg d a c s = Continue (apply_change d a s (override_schema cfg c))"
  by (simp add: on_change_def)

lemma Run_loop_Returned:
  assumes "Run_loop cfg d a evs = (Returned r, a')"
  shows "(r = None \<and> (\<exists>b. shutdownCh b \<noteq> [] \<and> a' = snd (on_shutdown b))) \<or>
         (\<exists>e. ListenerError e \<in> set evs \<and> r = Some (''listener received an error: '' @ e)) \<or>
         (ShutdownAfterLastChangeset cfg \<and>
          (\<exists>c s e. Change c s \<in> set evs \<and> IsLatestChangeSet d s (ID c) = Inl e \<and>
             r = Some (''failed to determine if the sync is complete: '' @ e)))"
  using assms
proof (induction cfg d a evs rule: Run_loop.induct)
  case (1 cfg d a)
  then show ?case by (auto simp: on_shutdown_def split: if_splits)
next
  case (2 cfg d a sg evs)
  then show ?case by auto
next
  case (3 cfg d a evs)
  show ?case
  proof (cases "shutdownCh a = []")
    case True
    then show ?thesis using 3 by auto
  next
    case False
    then have "r = None" and "a' = snd (on_shutdown a)"
      using "3.prems" by (auto simp: on_shutdown_def)
    then show ?thesis using False by blast
  qed
next
  case (4 cfg d a err evs)
  then show ?case by auto
next
  case (5 cfg d a c s evs)
  show ?case
  proof (cases "on_change cfg d a c s")
    case (Continue b)
    then have "Run_loop cfg d b evs = (Returned r, a')" using "5.prems" by simp
    from "5.IH" [OF Continue this] show ?thesis by auto
  next
    case (Stop r' b)
    then have "r' = Returned r" using "5.prems" by simp
    then show ?thesis using on_change_Stop [OF Stop] by auto
  qed
qed

lemma processChange_logs:
  "\<exists>es. fst (processChange d lg s t c) = lg @ es \<and>
        logged_errors es = apply_errors d s t c \<and>
        list_all (\<lambda>en. level en = ErrorLevel) es"
  by (cases "Kind c")
     (auto simp: processChange_def processInsert_def processUpdate_def processDelete_def
        log_table_error_def logged_errors_def apply_errors_def opt_list_def Let_def
        split: prod.splits option.splits)

text \<open>
  \<^verbatim>\<open>processDelete\<close> on a Delete changeset without old values, over the recording target:
  the error is logged and a DELETE is executed all the same.
\<close>

lemma processDelete_without_key:
  "processDelete (spec_deps pkeys_t) [] [] (mk_change 7 ChangesetKindDelete ''public'' [] []) =
     ([Entry ErrorLevel [(''error'', ''no primary key found for changeset''), (''table'', ''t'')]
         (''unable to process DELETE for table '' @ sq ''t'' @ '', changeset has no primary key'')],
      [DeleteStmt ''public'' ''t'' []])"
  by (simp add: run_eval spec_deps_eval)

lemma on_change_Continue_shutdownCh:
  assumes "on_change cfg d a c s = Continue b"
  shows "shutdownCh b = shutdownCh a \<or>
         (ShutdownAfterLastChangeset cfg \<and> IsLatestChangeSet d s (ID c) = Inr True)"
  using assms
  by (auto simp: on_change_def Let_def Shutdown_def log_sync_complete_def
      split: if_splits sum.splits option.splits)

lemma Run_loop_nil_cause:
  assumes "Run_loop cfg d a evs = (Returned None, a')"
  shows "(shutdownCh a \<noteq> [] \<or> (\<exists>sg. OsSignal sg \<in> set evs) \<or>
          (ShutdownAfterLastChangeset cfg \<and>
           (\<exists>c s. Change c s \<in> set evs \<and> IsLatestChangeSet d s (ID c) = Inr True))) \<and>
         Logger a' \<noteq> [] \<and> last (Logger a') = Entry ErrorLevel [] ''shutting down...''"
  using assms
proof (induction cfg d a evs rule: Run_loop.induct)
  case (1 cfg d a)
  then show ?case by (auto simp: on_shutdown_def split: if_splits)
next
  case (2 cfg d a sg evs)
  then show ?case by auto
next
  case (3 cfg d a evs)
  show ?case
  proof (cases "shutdownCh a = []")
    case True
    then show ?thesis using 3 by auto
  next
    case False
    then show ?thesis using "3.prems" by (auto simp: on_shutdown_def)
  qed
next
  case (4 cfg d a err evs)
  then show ?case by simp
next
  case (5 cfg d a c s evs)
  show ?case
  proof (cases "on_change cfg d a c s")
    case (Continue b)
    then have r: "Run_loop cfg d b evs = (Returned None, a')" using "5.prems" by simp
    note ih = "5.IH" [OF Continue r]
    from on_change_Continue_shutdownCh [OF Continue] ih show ?thesis by auto
  next
    case (Stop r' b)
    then have "r' = Returned None" using "5.prems" by simp
    then show ?thesis using on_change_Stop [OF Stop] by auto
  qed
qed

text \<open>
  C2 (as amended). Every error that arises while a changeset is applied is logged at error
  level and none is returned: whatever the row functions answered, the loop goes on with
  the next event, in drain mode too when the changeset is not the latest or when it is
  and the shutdown channel has room for the signal. Once the calls before the loop have
  succeeded, \<^verbatim>\<open>Run\<close> is the loop, and the loop returns in three ways only:
  \<^item> \<^verbatim>\<open>nil\<close>, by the shutdown branch, and only if the channel held a signal at the start,
    the operating system raised one, or drain mode queued one;
  \<^item> the wrapped error of the listener, as soon as the \<^verbatim>\<open>select\<close> receives one;
  \<^item> in drain mode, the wrapped error of \<^verbatim>\<open>IsLatestChangeSet\<close>.
\<close>

theorem Run_loop_apply_errors_and_returns:
  "(\<exists>es. Logger (apply_change d a s c) = Logger a @ es \<and>
         logged_errors es = apply_errors d s (targetDB a) c \<and>
         list_all (\<lambda>en. level en = ErrorLevel) es) \<and>
   (startup_error su = None \<longrightarrow> Run cfg d su a evs = Run_loop cfg d a evs) \<and>
   (\<not> ShutdownAfterLastChangeset cfg \<or> IsLatestChangeSet d s (ID c) = Inr False \<longrightarrow>
      Run_loop cfg d a (Change c s # evs) =
        Run_loop cfg d (apply_change d a s (override_schema cfg c)) evs) \<and>
   (ShutdownAfterLastChangeset cfg \<and> IsLatestChangeSet d s (ID c) = Inr True \<and>
    shutdownCh a = [] \<longrightarrow>
      Run_loop cfg d a (Change c s # evs) =
        Run_loop cfg d
          ((apply_change d a s (override_schema cfg c))
             \<lparr>Logger := Logger (apply_change d a s (override_schema cfg c)) @
                [Entry InfoLevel [(''component'', ''warp_pipe'')]
                   ''sync is complete. shutting down...''],
              shutdownCh := [SIGTERM]\<rparr>) evs) \<and>
   (ShutdownAfterLastChangeset cfg \<and> IsLatestChangeSet d s (ID c) = Inl e \<longrightarrow>
      Run_loop cfg d a (Change c s # evs) =
        (Returned (Some (''failed to determine if the sync is complete: '' @ e)),
         apply_change d a s (override_schema cfg c))) \<and>
   Run_loop cfg d a (ListenerError e # evs) =
     (Returned (Some (''listener received an error: '' @ e)), a) \<and>
   (shutdownCh a \<noteq> [] \<longrightarrow>
      Run_loop cfg d a (Quit # evs) =
        (Returned None,
         a\<lparr>shutdownCh := tl (shutdownCh a),
           Logger := Logger a @ [Entry ErrorLevel [] ''shutting down...'']\<rparr>) \<and>
      Run_loop cfg d a [] = Run_loop cfg d a (Quit # evs)) \<and>
   (shutdownCh a = [] \<longrightarrow>
      Run_loop cfg d a [] = (Waiting, a) \<and>
      Run_loop cfg d a (Quit # evs) = Run_loop cfg d a evs \<and>
      Run_loop cfg d a (OsSignal sg # evs) = Run_loop cfg d (a\<lparr>shutdownCh := [sg]\<rparr>) evs) \<and>
   (shutdownCh a \<noteq> [] \<longrightarrow>
      Run_loop cfg d a (OsSignal sg # evs) = Run_loop cfg d a evs) \<and>
   (Run_loop cfg d a evs = (Returned r, a') \<longrightarrow>
      (r = None \<and>
       (shutdownCh a \<noteq> [] \<or> (\<exists>sg. OsSignal sg \<in> set evs) \<or>
        (ShutdownAfterLastChangeset cfg \<and>
         (\<exists>c s. Change c s \<in> set evs \<and> IsLatestChangeSet d s (ID c) = Inr True))) \<and>
       Logger a' \<noteq> [] \<and> last (Logger a') = Entry ErrorLevel [] ''shutting down...'') \<or>
      (\<exists>e. ListenerError e \<in> set evs \<and> r = Some (''listener received an error: '' @ e)) \<or>
      (ShutdownAfterLastChangeset cfg \<and>
       (\<exists>c s e. Change c s \<in> set evs \<and> IsLatestChangeSet d s (ID c) = Inl e \<and>
          r = Some (''failed to determine if the sync is complete: '' @ e))))"
proof (intro conjI impI)
  obtain es where "fst (processChange d (Logger a) s (targetDB a) c) = Logger a @ es"
    "logged_errors es = apply_errors d s (targetDB a) c" "list_all (\<lambda>en. level en = ErrorLevel) es"
    using processChange_logs [of d "Logger a" s "targetDB a" c] by blast
  then show "\<exists>es. Logger (apply_change d a s c) = Logger a @ es \<and>
         logged_errors es = apply_errors d s (targetDB a) c \<and>
         list_all (\<lambda>en. level en = ErrorLevel) es"
    by (auto simp: apply_change_def split: prod.splits)
next
  assume "startup_error su = None"
  then show "Run cfg d su a evs = Run_loop cfg d a evs"
    by (simp add: Run_def)
next
  assume "\<not> ShutdownAfterLastChangeset cfg \<or> IsLatestChangeSet d s (ID c) = Inr False"
  then have "on_change cfg d a c s = Continue (apply_change d a s (override_schema cfg c))"
    by (auto simp: on_change_def Let_def)
  then show "Run_loop cfg d a (Change c s # evs) =
        Run_loop cfg d (apply_change d a s (override_schema cfg c)) evs"
    by simp
next
  assume "ShutdownAfterLastChangeset cfg \<and> IsLatestChangeSet d s (ID c) = Inr True \<and>
    shutdownCh a = []"
  then have "on_change cfg d a c s =
      Continue ((apply_change d a s (override_schema cfg c))
             \<lparr>Logger := Logger (apply_change d a s (override_schema cfg c)) @
                [Entry InfoLevel [(''component'', ''warp_pipe'')]
                   ''sync is complete. shutting down...''],
              shutdownCh := [SIGTERM]\<rparr>)"
    by (simp add: on_change_def Shutdown_def shutdownCh_cap_def log_sync_complete_def Let_def)
  then show "Run_loop cfg d a (Change c s # evs) =
        Run_loop cfg d
          ((apply_change d a s (override_schema cfg c))
             \<lparr>Logger := Logger (apply_change d a s (override_schema cfg c)) @
                [Entry InfoLevel [(''component'', ''warp_pipe'')]
                   ''sync is complete. shutting down...''],
              shutdownCh := [SIGTERM]\<rparr>) evs"
    by simp
next
  assume "ShutdownAfterLastChangeset cfg \<and> IsLatestChangeSet d s (ID c) = Inl e"
  then have "on_change cfg d a c s =
      Stop (Returned (Some (''failed to determine if the sync is complete: '' @ e)))
        (apply_change d a s (override_schema cfg c))"
    by (simp add: on_change_def Let_def)
  then show "Run_loop cfg d a (Change c s # evs) =
        (Returned (Some (''failed to determine if the sync is complete: '' @ e)),
         apply_change d a s (override_schema cfg c))"
    by simp
next
  show "Run_loop cfg d a (ListenerError e # evs) =
     (Returned (Some (''listener received an error: '' @ e)), a)"
    by simp
next
  assume n: "shutdownCh a \<noteq> []"
  then show q: "Run_loop cfg d a (Quit # evs) =
        (Returned None,
         a\<lparr>shutdownCh := tl (shutdownCh a),
           Logger := Logger a @ [Entry ErrorLevel [] ''shutting down...'']\<rparr>)"
    by (simp add: on_shutdown_def)
  from n show "Run_loop cfg d a [] = Run_loop cfg d a (Quit # evs)"
    by simp
next
  assume e: "shutdownCh a = []"
  then show "Run_loop cfg d a [] = (Waiting, a)"
    by simp
  from e show "Run_loop cfg d a (Quit # evs) = Run_loop cfg d a evs"
    by simp
  from e show "Run_loop cfg d a (OsSignal sg # evs) = Run_loop cfg d (a\<lparr>shutdownCh := [sg]\<rparr>) evs"
    by (simp add: notify_def shutdownCh_cap_def)
next
  assume "shutdownCh a \<noteq> []"
  then have "notify sg a = a"
    by (cases "shutdownCh a") (simp_all add: notify_def shutdownCh_cap_def)
  then show "Run_loop cfg d a (OsSignal sg # evs) = Run_loop cfg d a evs"
    by simp
next
  assume run: "Run_loop cfg d a evs = (Returned r, a')"
  show "(r = None \<and>
       (shutdownCh a \<noteq> [] \<or> (\<exists>sg. OsSignal sg \<in> set evs) \<or>
        (ShutdownAfterLastChangeset cfg \<and>
         (\<exists>c s. Change c s \<in> set evs \<and> IsLatestChangeSet d s (ID c) = Inr True))) \<and>
       Logger a' \<noteq> [] \<and> last (Logger a') = Entry ErrorLevel [] ''shutting down...'') \<or>
      (\<exists>e. ListenerError e \<in> set evs \<and> r = Some (''listener received an error: '' @ e)) \<or>
      (ShutdownAfterLastChangeset cfg \<and>
       (\<exists>c s e. Change c s \<in> set evs \<and> IsLatestChangeSet d s (ID c) = Inl e \<and>
          r = Some (''failed to determine if the sync is complete: '' @ e)))"
  proof (cases r)
    case None
    then show ?thesis using Run_loop_nil_cause [of cfg d a evs a'] run by blast
  next
    case (Some x)
    then show ?thesis using Run_loop_Returned [OF run] by auto
  qed
qed

text \<open>
  The theorem on runs over a Delete changeset without old values: a listener error after
  the failed apply; drain mode with a changeset that is not the latest, then a signal;
  drain mode with a failing query; drain mode with the latest changeset; a signal that
  finds the channel full; and a shutdown case with nothing to receive.
\<close>

theorem Run_loop_apply_errors_and_returns_witness:
  "Run (cfg_test False) (spec_deps pkeys_t) startup_ok axon0
     [Change (mk_change 7 ChangesetKindDelete ''public'' [] []) (Inr 7), ListenerError ''eof'', Quit] =
   (Returned (Some ''listener received an error: eof''),
    \<lparr>Logger = [Entry ErrorLevel [(''error'', ''no primary key found for changeset''), (''table'', ''t'')]
        (''unable to process DELETE for table '' @ [CHR 0x27] @ ''t'' @ [CHR 0x27] @
         '', changeset has no primary key'')],
      targetDB = [DeleteStmt ''public'' ''t'' []], shutdownCh = []\<rparr>) \<and>
   Run (cfg_test True) (spec_deps pkeys_t) startup_ok axon0
     [Change (mk_change 7 ChangesetKindDelete ''public'' [] []) (Inr 9), OsSignal SIGTERM] =
   (Returned None,
    \<lparr>Logger = [Entry ErrorLevel [(''error'', ''no primary key found for changeset''), (''table'', ''t'')]
        (''unable to process DELETE for table '' @ [CHR 0x27] @ ''t'' @ [CHR 0x27] @
         '', changeset has no primary key''),
       Entry ErrorLevel [] ''shutting down...''],
      targetDB = [DeleteStmt ''public'' ''t'' []], shutdownCh = []\<rparr>) \<and>
   Run (cfg_test True) (spec_deps pkeys_t) startup_ok axon0
     [Change (mk_change 7 ChangesetKindDelete ''public'' [] []) (Inl ''connection lost'')] =
   (Returned (Some ''failed to determine if the sync is complete: connection lost''),
    \<lparr>Logger = [Entry ErrorLevel [(''error'', ''no primary key found for changeset''), (''table'', ''t'')]
        (''unable to process DELETE for table '' @ [CHR 0x27] @ ''t'' @ [CHR 0x27] @
         '', changeset has no primary key'')],
      targetDB = [DeleteStmt ''public'' ''t'' []], shutdownCh = []\<rparr>) \<and>
   Run (cfg_test True) (spec_deps pkeys_t) startup_ok axon0
     [Change (mk_change 7 ChangesetKindDelete ''public'' [] []) (Inr 7)] =
   (Returned None,
    \<lparr>Logger = [Entry ErrorLevel [(''error'', ''no primary key found for changeset''), (''table'', ''t'')]
        (''unable to process DELETE for table '' @ [CHR 0x27] @ ''t'' @ [CHR 0x27] @
         '', changeset has no primary key''),
       Entry InfoLevel [(''component'', ''warp_pipe'')] ''sync is complete. shutting down...'',
       Entry ErrorLevel [] ''shutting down...''],
      targetDB = [DeleteStmt ''public'' ''t'' []], shutdownCh = []\<rparr>) \<and>
   Run_loop (cfg_test False) (spec_deps pkeys_t)
     (\<lparr>Logger = [Entry ErrorLevel [(''error'', ''no primary key found for changeset''), (''table'', ''t'')]
        (''unable to process DELETE for table '' @ [CHR 0x27] @ ''t'' @ [CHR 0x27] @
         '', changeset has no primary key'')],
      targetDB = [DeleteStmt ''public'' ''t'' []], shutdownCh = [SIGTERM]\<rparr>)
     [OsSignal Interrupt, Quit, ListenerError ''eof''] =
   (Returned None,
    \<lparr>Logger = [Entry ErrorLevel [(''error'', ''no primary key found for changeset''), (''table'', ''t'')]
        (''unable to process DELETE for table '' @ [CHR 0x27] @ ''t'' @ [CHR 0x27] @
         '', changeset has no primary key''),
       Entry ErrorLevel [] ''shutting down...''],
      targetDB = [DeleteStmt ''public'' ''t'' []], shutdownCh = []\<rparr>) \<and>
   Run_loop (cfg_test False) (spec_deps pkeys_t) axon0 [Quit] = (Waiting, axon0)"
proof -
  let ?D = "spec_deps pkeys_t"
  let ?c = "(mk_change 7 ChangesetKindDelete ''public'' [] [])"
  let ?A1 = "\<lparr>Logger = [Entry ErrorLevel [(''error'', ''no primary key found for changeset''), (''table'', ''t'')]
        (''unable to process DELETE for table '' @ [CHR 0x27] @ ''t'' @ [CHR 0x27] @
         '', changeset has no primary key'')],
      targetDB = [DeleteStmt ''public'' ''t'' []], shutdownCh = []\<rparr>"
  let ?A1s = "\<lparr>Logger = [Entry ErrorLevel [(''error'', ''no primary key found for changeset''), (''table'', ''t'')]
        (''unable to process DELETE for table '' @ [CHR 0x27] @ ''t'' @ [CHR 0x27] @
         '', changeset has no primary key'')],
      targetDB = [DeleteStmt ''public'' ''t'' []], shutdownCh = [SIGTERM]\<rparr>"
  let ?A3q = "\<lparr>Logger = [Entry ErrorLevel [(''error'', ''no primary key found for changeset''), (''table'', ''t'')]
        (''unable to process DELETE for table '' @ [CHR 0x27] @ ''t'' @ [CHR 0x27] @
         '', changeset has no primary key''),
       Entry InfoLevel [(''component'', ''warp_pipe'')] ''sync is complete. shutting down...''],
      targetDB = [DeleteStmt ''public'' ''t'' []], shutdownCh = [SIGTERM]\<rparr>"
  have su: "startup_error startup_ok = None"
    by (simp add: startup_error_def startup_ok_def)
  have nd: "\<not> ShutdownAfterLastChangeset (cfg_test False)" and dr: "ShutdownAfterLastChangeset (cfg_test True)"
    by (simp_all add: cfg_test_def)
  have e0: "shutdownCh axon0 = []"
    by (simp add: axon0_def)
  have a1: "apply_change ?D axon0 (Inr 7) (override_schema (cfg_test False) ?c) = ?A1"
    "apply_change ?D axon0 (Inr 9) (override_schema (cfg_test True) ?c) = ?A1"
    "apply_change ?D axon0 (Inl ''connection lost'') (override_schema (cfg_test True) ?c) = ?A1"
    "apply_change ?D axon0 (Inr 7) (override_schema (cfg_test True) ?c) = ?A1"
    by (simp_all add: run_eval spec_deps_eval sq_def squote_def)
  have l9: "IsLatestChangeSet ?D (Inr 9) (ID ?c) = Inr False"
    and l7: "IsLatestChangeSet ?D (Inr 7) (ID ?c) = Inr True"
    and le: "IsLatestChangeSet ?D (Inl ''connection lost'') (ID ?c) = Inl ''connection lost''"
    by (simp_all add: spec_deps_eval)
  \<comment> \<open>a listener error after a failed apply\<close>
  note i1 = Run_loop_apply_errors_and_returns [of ?D axon0 "Inr 7" ?c startup_ok "cfg_test False"
      "[ListenerError ''eof'', Quit]" "''eof''" SIGTERM None axon0]
  note i1b = Run_loop_apply_errors_and_returns [of ?D ?A1 "Inr 7" ?c startup_ok "cfg_test False"
      "[Quit]" "''eof''" SIGTERM None axon0]
  from i1 su nd a1(1) have "Run (cfg_test False) ?D startup_ok axon0
      (Change ?c (Inr 7) # [ListenerError ''eof'', Quit]) = Run_loop (cfg_test False) ?D ?A1 [ListenerError ''eof'', Quit]"
    by (simp add: Run_def)
  moreover from i1b have "Run_loop (cfg_test False) ?D ?A1 (ListenerError ''eof'' # [Quit]) =
      (Returned (Some (''listener received an error: '' @ ''eof'')), ?A1)"
    by blast
  ultimately have w1: "Run (cfg_test False) (spec_deps pkeys_t) startup_ok axon0
     [Change (mk_change 7 ChangesetKindDelete ''public'' [] []) (Inr 7), ListenerError ''eof'', Quit] =
   (Returned (Some ''listener received an error: eof''),
    \<lparr>Logger = [Entry ErrorLevel [(''error'', ''no primary key found for changeset''), (''table'', ''t'')]
        (''unable to process DELETE for table '' @ [CHR 0x27] @ ''t'' @ [CHR 0x27] @
         '', changeset has no primary key'')],
      targetDB = [DeleteStmt ''public'' ''t'' []], shutdownCh = []\<rparr>)"
    by simp
  \<comment> \<open>drain mode, not the latest, then a signal\<close>
  note i2 = Run_loop_apply_errors_and_returns [of ?D axon0 "Inr 9" ?c startup_ok "cfg_test True"
      "[OsSignal SIGTERM]" "''eof''" SIGTERM None axon0]
  note i2b = Run_loop_apply_errors_and_returns [of ?D ?A1 "Inr 9" ?c startup_ok "cfg_test True"
      "[]" "''eof''" SIGTERM None axon0]
  note i2c = Run_loop_apply_errors_and_returns [of ?D ?A1s "Inr 9" ?c startup_ok "cfg_test True"
      "[]" "''eof''" SIGTERM None axon0]
  from i2 l9 a1(2) have "Run_loop (cfg_test True) ?D axon0 (Change ?c (Inr 9) # [OsSignal SIGTERM]) =
      Run_loop (cfg_test True) ?D ?A1 [OsSignal SIGTERM]"
    by simp
  moreover from i2b have "Run_loop (cfg_test True) ?D ?A1 (OsSignal SIGTERM # []) =
      Run_loop (cfg_test True) ?D ?A1s []"
    by simp
  moreover from i2c have "Run_loop (cfg_test True) ?D ?A1s [] =
      (Returned None, \<lparr>Logger = [Entry ErrorLevel [(''error'', ''no primary key found for changeset''), (''table'', ''t'')]
        (''unable to process DELETE for table '' @ [CHR 0x27] @ ''t'' @ [CHR 0x27] @
         '', changeset has no primary key''),
       Entry ErrorLevel [] ''shutting down...''],
      targetDB = [DeleteStmt ''public'' ''t'' []], shutdownCh = []\<rparr>)"
    by simp
  ultimately have w2: "Run (cfg_test True) (spec_deps pkeys_t) startup_ok axon0
     [Change (mk_change 7 ChangesetKindDelete ''public'' [] []) (Inr 9), OsSignal SIGTERM] =
   (Returned None,
    \<lparr>Logger = [Entry ErrorLevel [(''error'', ''no primary key found for changeset''), (''table'', ''t'')]
        (''unable to process DELETE for table '' @ [CHR 0x27] @ ''t'' @ [CHR 0x27] @
         '', changeset has no primary key''),
       Entry ErrorLevel [] ''shutting down...''],
      targetDB = [DeleteStmt ''public'' ''t'' []], shutdownCh = []\<rparr>)"
    using su by (simp add: Run_def)
  \<comment> \<open>drain mode, the query for the latest id fails\<close>
  note i4 = Run_loop_apply_errors_and_returns [of ?D axon0 "Inl ''connection lost''" ?c startup_ok
      "cfg_test True" "[]" "''connection lost''" SIGTERM None axon0]
  from i4 dr le a1(3) have w4: "Run (cfg_test True) (spec_deps pkeys_t) startup_ok axon0
     [Change (mk_change 7 ChangesetKindDelete ''public'' [] []) (Inl ''connection lost'')] =
   (Returned (Some ''failed to determine if the sync is complete: connection lost''),
    \<lparr>Logger = [Entry ErrorLevel [(''error'', ''no primary key found for changeset''), (''table'', ''t'')]
        (''unable to process DELETE for table '' @ [CHR 0x27] @ ''t'' @ [CHR 0x27] @
         '', changeset has no primary key'')],
      targetDB = [DeleteStmt ''public'' ''t'' []], shutdownCh = []\<rparr>)"
    using su by (simp add: Run_def)
  \<comment> \<open>drain mode, the latest changeset\<close>
  note i5 = Run_loop_apply_errors_and_returns [of ?D axon0 "Inr 7" ?c startup_ok "cfg_test True"
      "[]" "''eof''" SIGTERM None axon0]
  note i5b = Run_loop_apply_errors_and_returns [of ?D ?A3q "Inr 7" ?c startup_ok "cfg_test True"
      "[]" "''eof''" SIGTERM None axon0]
  from i5 dr l7 e0 a1(4) have "Run_loop (cfg_test True) ?D axon0 (Change ?c (Inr 7) # []) =
      Run_loop (cfg_test True) ?D ?A3q []"
    by simp
  moreover from i5b have "Run_loop (cfg_test True) ?D ?A3q [] =
      (Returned None, \<lparr>Logger = [Entry ErrorLevel [(''error'', ''no primary key found for changeset''), (''table'', ''t'')]
        (''unable to process DELETE for table '' @ [CHR 0x27] @ ''t'' @ [CHR 0x27] @
         '', changeset has no primary key''),
       Entry InfoLevel [(''component'', ''warp_pipe'')] ''sync is complete. shutting down...'',
       Entry ErrorLevel [] ''shutting down...''],
      targetDB = [DeleteStmt ''public'' ''t'' []], shutdownCh = []\<rparr>)"
    by simp
  ultimately have w5: "Run (cfg_test True) (spec_deps pkeys_t) startup_ok axon0
     [Change (mk_change 7 ChangesetKindDelete ''public'' [] []) (Inr 7)] =
   (Returned None,
    \<lparr>Logger = [Entry ErrorLevel [(''error'', ''no primary key found for changeset''), (''table'', ''t'')]
        (''unable to process DELETE for table '' @ [CHR 0x27] @ ''t'' @ [CHR 0x27] @
         '', changeset has no primary key''),
       Entry InfoLevel [(''component'', ''warp_pipe'')] ''sync is complete. shutting down...'',
       Entry ErrorLevel [] ''shutting down...''],
      targetDB = [DeleteStmt ''public'' ''t'' []], shutdownCh = []\<rparr>)"
    using su by (simp add: Run_def)
  \<comment> \<open>a signal that finds the channel full is dropped; the shutdown case wins over what is pending\<close>
  note i6 = Run_loop_apply_errors_and_returns [of ?D ?A1s "Inr 7" ?c startup_ok "cfg_test False"
      "[Quit, ListenerError ''eof'']" "''eof''" Interrupt None axon0]
  note i6b = Run_loop_apply_errors_and_returns [of ?D ?A1s "Inr 7" ?c startup_ok "cfg_test False"
      "[ListenerError ''eof'']" "''eof''" Interrupt None axon0]
  from i6 have "Run_loop (cfg_test False) ?D ?A1s (OsSignal Interrupt # [Quit, ListenerError ''eof'']) =
      Run_loop (cfg_test False) ?D ?A1s [Quit, ListenerError ''eof'']"
    by simp
  moreover from i6b have "Run_loop (cfg_test False) ?D ?A1s (Quit # [ListenerError ''eof'']) =
      (Returned None, \<lparr>Logger = [Entry ErrorLevel [(''error'', ''no primary key found for changeset''), (''table'', ''t'')]
        (''unable to process DELETE for table '' @ [CHR 0x27] @ ''t'' @ [CHR 0x27] @
         '', changeset has no primary key''),
       Entry ErrorLevel [] ''shutting down...''],
      targetDB = [DeleteStmt ''public'' ''t'' []], shutdownCh = []\<rparr>)"
    by simp
  ultimately have w6: "Run_loop (cfg_test False) (spec_deps pkeys_t)
     (\<lparr>Logger = [Entry ErrorLevel [(''error'', ''no primary key found for changeset''), (''table'', ''t'')]
        (''unable to process DELETE for table '' @ [CHR 0x27] @ ''t'' @ [CHR 0x27] @
         '', changeset has no primary key'')],
      targetDB = [DeleteStmt ''public'' ''t'' []], shutdownCh = [SIGTERM]\<rparr>)
     [OsSignal Interrupt, Quit, ListenerError ''eof''] =
   (Returned None,
    \<lparr>Logger = [Entry ErrorLevel [(''error'', ''no primary key found for changeset''), (''table'', ''t'')]
        (''unable to process DELETE for table '' @ [CHR 0x27] @ ''t'' @ [CHR 0x27] @
         '', changeset has no primary key''),
       Entry ErrorLevel [] ''shutting down...''],
      targetDB = [DeleteStmt ''public'' ''t'' []], shutdownCh = []\<rparr>)"
    by simp
  from i1 e0 have w7: "Run_loop (cfg_test False) (spec_deps pkeys_t) axon0 [Quit] = (Waiting, axon0)"
    by (simp add: axon0_def)
  show ?thesis
    using w1 w2 w4 w5 w6 w7 by blast
qed

text \<open>
  C2 as stated fails: in drain mode a failing \<^verbatim>\<open>IsLatestChangeSet\<close> ends \<^verbatim>\<open>Run\<close> with an
  error, with no shutdown signal and no listener error in the schedule.
\<close>

theorem Run_returns_on_IsLatestChangeSet_error:
  "fst (Run (cfg_test True) (spec_deps pkeys_t) startup_ok axon0
         [Change (mk_change 1 ChangesetKindInsert ''public'' [(''id'', ''1'')] [])
            (Inl ''connection lost'')]) =
     Returned (Some ''failed to determine if the sync is complete: connection lost'')"
  by (simp add: run_eval spec_deps_eval)

text \<open>
  C3 (as amended). When \<^verbatim>\<open>insertRow\<close> reports an error for an Insert changeset, the
  primary-key conflict of a replayed insert included, \<^verbatim>\<open>processInsert\<close> logs it with
  \<^verbatim>\<open>Errorf\<close>, at error level, leaves the target as \<^verbatim>\<open>insertRow\<close> left it and returns no
  error; without drain mode the loop goes on with the next event.
\<close>

theorem processInsert_logs_error:
  assumes "Kind c = ChangesetKindInsert"
    and "insertRow d s (targetDB a) (override_schema cfg c) = (Some e, t')"
  shows "apply_change d a s (override_schema cfg c) =
           a\<lparr>Logger := Logger a @
                [Entry ErrorLevel [(''error'', e), (''table'', Table c)]
                   (''failed to INSERT row for table '' @ sq (Table c))],
             targetDB := t'\<rparr> \<and>
         (\<not> ShutdownAfterLastChangeset cfg \<longrightarrow>
            Run_loop cfg d a (Change c s # evs) =
              Run_loop cfg d (apply_change d a s (override_schema cfg c)) evs)"
  using assms
  by (simp add: apply_change_def processChange_def processInsert_def log_table_error_def
      on_change_no_drain)

theorem processInsert_logs_error_witness:
  "Kind (mk_change 1 ChangesetKindInsert ''public'' [(''id'', ''1'')] []) = ChangesetKindInsert \<and>
   insertRow (spec_deps pkeys_t) (Inr 1) [InsertStmt ''public'' ''t'' [(''id'', ''1'')]]
      (override_schema (cfg_test False) (mk_change 1 ChangesetKindInsert ''public'' [(''id'', ''1'')] []))
     = (Some ''duplicate key value violates unique constraint'',
        [InsertStmt ''public'' ''t'' [(''id'', ''1'')]]) \<and>
   Logger (apply_change (spec_deps pkeys_t)
             (axon0\<lparr>targetDB := [InsertStmt ''public'' ''t'' [(''id'', ''1'')]]\<rparr>) (Inr 1)
             (override_schema (cfg_test False)
                (mk_change 1 ChangesetKindInsert ''public'' [(''id'', ''1'')] []))) =
     [Entry ErrorLevel
        [(''error'', ''duplicate key value violates unique constraint''), (''table'', ''t'')]
        (''failed to INSERT row for table '' @ sq ''t'')] \<and>
   \<not> ShutdownAfterLastChangeset (cfg_test False) \<and>
   Run_loop (cfg_test False) (spec_deps pkeys_t)
     (axon0\<lparr>targetDB := [InsertStmt ''public'' ''t'' [(''id'', ''1'')]]\<rparr>)
     [Change (mk_change 1 ChangesetKindInsert ''public'' [(''id'', ''1'')] []) (Inr 1), Quit] =
   Run_loop (cfg_test False) (spec_deps pkeys_t)
     (apply_change (spec_deps pkeys_t)
             (axon0\<lparr>targetDB := [InsertStmt ''public'' ''t'' [(''id'', ''1'')]]\<rparr>) (Inr 1)
             (override_schema (cfg_test False)
                (mk_change 1 ChangesetKindInsert ''public'' [(''id'', ''1'')] [])))
     [Quit]"
proof -
  let ?c = "mk_change 1 ChangesetKindInsert ''public'' [(''id'', ''1'')] []"
  let ?t = "[InsertStmt ''public'' ''t'' [(''id'', ''1'')]]"
  let ?a = "axon0\<lparr>targetDB := ?t\<rparr>"
  have k: "Kind ?c = ChangesetKindInsert"
    by (simp add: mk_change_def)
  have i: "insertRow (spec_deps pkeys_t) (Inr 1) ?t (override_schema (cfg_test False) ?c)
     = (Some ''duplicate key value violates unique constraint'', ?t)"
    by (simp add: run_eval spec_deps_eval)
  then have i': "insertRow (spec_deps pkeys_t) (Inr 1) (targetDB ?a) (override_schema (cfg_test False) ?c)
     = (Some ''duplicate key value violates unique constraint'', ?t)"
    by simp
  have nd: "\<not> ShutdownAfterLastChangeset (cfg_test False)"
    by (simp add: cfg_test_def)
  note inst = processInsert_logs_error [OF k i', of "[Quit]"]
  from inst
  have lg: "Logger (apply_change (spec_deps pkeys_t) ?a (Inr 1) (override_schema (cfg_test False) ?c)) =
     [Entry ErrorLevel
        [(''error'', ''duplicate key value violates unique constraint''), (''table'', ''t'')]
        (''failed to INSERT row for table '' @ sq ''t'')]"
    by (simp add: axon0_def mk_change_def)
  from inst nd
  have go: "Run_loop (cfg_test False) (spec_deps pkeys_t) ?a [Change ?c (Inr 1), Quit] =
     Run_loop (cfg_test False) (spec_deps pkeys_t)
       (apply_change (spec_deps pkeys_t) ?a (Inr 1) (override_schema (cfg_test False) ?c)) [Quit]"
    by blast
  show ?thesis using k i lg nd go by blast
qed

text \<open>
  C3 as stated fails: a replayed insert whose conflict \<^verbatim>\<open>insertRow\<close> reports is logged
  at error level, not as a warning.
\<close>

theorem replayed_insert_logged_at_error_level:
  "Logger (snd (Run (cfg_test False) (spec_deps pkeys_t) startup_ok axon0
      [Change (mk_change 1 ChangesetKindInsert ''public'' [(''id'', ''1'')] []) (Inr 1),
       Change (mk_change 1 ChangesetKindInsert ''public'' [(''id'', ''1'')] []) (Inr 1)])) =
     [Entry ErrorLevel
        [(''error'', ''duplicate key value violates unique constraint''), (''table'', ''t'')]
        (''failed to INSERT row for table '' @ sq ''t'')]"
  by (simp add: run_eval spec_deps_eval)

text \<open>
  C8 (as amended). In drain mode \<^verbatim>\<open>Run\<close> consults \<^verbatim>\<open>IsLatestChangeSet\<close> with the id of the
  changeset it has just applied. When the answer is no, the loop goes on. When the answer
  is yes and the shutdown channel is empty, \<^verbatim>\<open>Run\<close> logs that the sync is complete and
  queues \<^verbatim>\<open>SIGTERM\<close> on its shutdown channel; it then returns \<^verbatim>\<open>nil\<close>, with nothing more
  applied, when nothing else arrives or when the \<^verbatim>\<open>select\<close> takes the shutdown case
  next, whatever is still pending.
\<close>

theorem drain_mode_shutdown:
  assumes "ShutdownAfterLastChangeset cfg"
  shows "(IsLatestChangeSet d s (ID c) = Inr False \<longrightarrow>
            on_change cfg d a c s = Continue (apply_change d a s (override_schema cfg c))) \<and>
         (IsLatestChangeSet d s (ID c) = Inr True \<and> shutdownCh a = [] \<longrightarrow>
            on_change cfg d a c s =
              Continue ((log_sync_complete (apply_change d a s (override_schema cfg c)))
                          \<lparr>shutdownCh := [SIGTERM]\<rparr>) \<and>
            Run_loop cfg d a [Change c s] =
              on_shutdown ((log_sync_complete (apply_change d a s (override_schema cfg c)))
                          \<lparr>shutdownCh := [SIGTERM]\<rparr>) \<and>
            Run_loop cfg d a (Change c s # Quit # evs) =
              on_shutdown ((log_sync_complete (apply_change d a s (override_schema cfg c)))
                          \<lparr>shutdownCh := [SIGTERM]\<rparr>) \<and>
            fst (Run_loop cfg d a (Change c s # Quit # evs)) = Returned None \<and>
            targetDB (snd (Run_loop cfg d a (Change c s # Quit # evs))) =
              targetDB (apply_change d a s (override_schema cfg c)))"
proof (intro conjI impI)
  assume "IsLatestChangeSet d s (ID c) = Inr False"
  then show "on_change cfg d a c s = Continue (apply_change d a s (override_schema cfg c))"
    using assms by (simp add: on_change_def)
next
  let ?b = "(log_sync_complete (apply_change d a s (override_schema cfg c)))\<lparr>shutdownCh := [SIGTERM]\<rparr>"
  assume l: "IsLatestChangeSet d s (ID c) = Inr True \<and> shutdownCh a = []"
  then show o: "on_change cfg d a c s = Continue ?b"
    using assms
    by (simp add: on_change_def Shutdown_def shutdownCh_cap_def log_sync_complete_def Let_def)
  then show "Run_loop cfg d a [Change c s] = on_shutdown ?b"
    by simp
  from o show q: "Run_loop cfg d a (Change c s # Quit # evs) = on_shutdown ?b"
    by simp
  then show "fst (Run_loop cfg d a (Change c s # Quit # evs)) = Returned None"
    by simp
  from q show "targetDB (snd (Run_loop cfg d a (Change c s # Quit # evs))) =
              targetDB (apply_change d a s (override_schema cfg c))"
    by (simp add: log_sync_complete_def)
qed

theorem drain_mode_shutdown_witness:
  "ShutdownAfterLastChangeset (cfg_test True) \<and>
   IsLatestChangeSet (spec_deps pkeys_t) (Inr 1)
     (ID (mk_change 1 ChangesetKindInsert ''public'' [(''id'', ''1'')] [])) = Inr True \<and>
   shutdownCh axon0 = [] \<and>
   fst (Run_loop (cfg_test True) (spec_deps pkeys_t) axon0
          [Change (mk_change 1 ChangesetKindInsert ''public'' [(''id'', ''1'')] []) (Inr 1), Quit,
           Change (mk_change 2 ChangesetKindInsert ''public'' [(''id'', ''2'')] []) (Inr 2)]) =
     Returned None \<and>
   targetDB (snd (Run_loop (cfg_test True) (spec_deps pkeys_t) axon0
          [Change (mk_change 1 ChangesetKindInsert ''public'' [(''id'', ''1'')] []) (Inr 1), Quit,
           Change (mk_change 2 ChangesetKindInsert ''public'' [(''id'', ''2'')] []) (Inr 2)])) =
     [InsertStmt ''public'' ''t'' [(''id'', ''1'')]] \<and>
   IsLatestChangeSet (spec_deps pkeys_t) (Inr 5)
     (ID (mk_change 1 ChangesetKindInsert ''public'' [(''id'', ''1'')] [])) = Inr False \<and>
   on_change (cfg_test True) (spec_deps pkeys_t) axon0
     (mk_change 1 ChangesetKindInsert ''public'' [(''id'', ''1'')] []) (Inr 5) =
     Continue (axon0\<lparr>targetDB := [InsertStmt ''public'' ''t'' [(''id'', ''1'')]]\<rparr>)"
proof -
  let ?c1 = "mk_change 1 ChangesetKindInsert ''public'' [(''id'', ''1'')] []"
  let ?c2 = "mk_change 2 ChangesetKindInsert ''public'' [(''id'', ''2'')] []"
  have h: "ShutdownAfterLastChangeset (cfg_test True)"
    by (simp add: cfg_test_def)
  have l: "IsLatestChangeSet (spec_deps pkeys_t) (Inr 1) (ID ?c1) = Inr True"
    by (simp add: spec_deps_eval)
  have e: "shutdownCh axon0 = []"
    by (simp add: axon0_def)
  have t: "targetDB (apply_change (spec_deps pkeys_t) axon0 (Inr 1)
             (override_schema (cfg_test True) ?c1)) = [InsertStmt ''public'' ''t'' [(''id'', ''1'')]]"
    by (simp add: run_eval spec_deps_eval)
  let ?evs = "Change ?c1 (Inr 1) # Quit # [Change ?c2 (Inr 2)]"
  from drain_mode_shutdown [OF h, of "spec_deps pkeys_t" "Inr 1" ?c1 axon0 "[Change ?c2 (Inr 2)]"] l e
  have r: "fst (Run_loop (cfg_test True) (spec_deps pkeys_t) axon0 ?evs) = Returned None"
    and u: "targetDB (snd (Run_loop (cfg_test True) (spec_deps pkeys_t) axon0 ?evs)) =
      targetDB (apply_change (spec_deps pkeys_t) axon0 (Inr 1)
             (override_schema (cfg_test True) ?c1))"
    by blast+
  have n: "IsLatestChangeSet (spec_deps pkeys_t) (Inr 5) (ID ?c1) = Inr False"
    by (simp add: spec_deps_eval)
  have a: "apply_change (spec_deps pkeys_t) axon0 (Inr 5) (override_schema (cfg_test True) ?c1) =
      axon0\<lparr>targetDB := [InsertStmt ''public'' ''t'' [(''id'', ''1'')]]\<rparr>"
    by (simp add: run_eval spec_deps_eval)
  from drain_mode_shutdown [OF h, of "spec_deps pkeys_t" "Inr 5" ?c1 axon0 "[]"] n
  have o: "on_change (cfg_test True) (spec_deps pkeys_t) axon0 ?c1 (Inr 5) =
      Continue (apply_change (spec_deps pkeys_t) axon0 (Inr 5) (override_schema (cfg_test True) ?c1))"
    by blast
  show ?thesis using h l e r u t n o a by simp
qed

text \<open>
  C8 as stated fails: shutdown is a signal queued for the same \<^verbatim>\<open>select\<close> that receives
  the changesets. A changeset that is ready when the \<^verbatim>\<open>select\<close> runs again can be taken
  first: changeset 2 is applied after changeset 1 was found to be the latest; and if
  changeset 2 is the latest in its turn, the second \<^verbatim>\<open>a.Shutdown()\<close> finds the channel
  full and \<^verbatim>\<open>Run\<close> does not return.
\<close>

theorem drain_mode_applies_after_shutdown:
  "IsLatestChangeSet (spec_deps pkeys_t) (Inr 1)
     (ID (mk_change 1 ChangesetKindInsert ''public'' [(''id'', ''1'')] [])) = Inr True \<and>
   targetDB (snd (Run (cfg_test True) (spec_deps pkeys_t) startup_ok axon0
      [Change (mk_change 1 ChangesetKindInsert ''public'' [(''id'', ''1'')] []) (Inr 1),
       Change (mk_change 2 ChangesetKindInsert ''public'' [(''id'', ''2'')] []) (Inr 3)])) =
     [InsertStmt ''public'' ''t'' [(''id'', ''1'')], InsertStmt ''public'' ''t'' [(''id'', ''2'')]] \<and>
   fst (Run (cfg_test True) (spec_deps pkeys_t) startup_ok axon0
      [Change (mk_change 1 ChangesetKindInsert ''public'' [(''id'', ''1'')] []) (Inr 1),
       Change (mk_change 2 ChangesetKindInsert ''public'' [(''id'', ''2'')] []) (Inr 2)]) =
     SendBlocked"
  by (simp add: run_eval spec_deps_eval)

section \<open>Properties of the configuration\<close>

lemma NewAxonConfigFromEnv_Inr:
  assumes "NewAxonConfigFromEnv ParseInt ParseBool env = Inr cfg"
  shows "TargetDBSchema cfg =
           string_field env ''AXON_TARGET_DB_SCHEMA'' ''TARGET_DB_SCHEMA'' ''public'' \<and>
         int_field ParseInt env ''AXON_START_FROM_ID'' ''START_FROM_ID'' ''StartFromID'' ''int64'' =
           Inr (StartFromID cfg)"
proof -
  obtain sp where 1: "int_field ParseInt env ''AXON_SOURCE_DB_PORT'' ''SOURCE_DB_PORT''
      ''SourceDBPort'' ''int'' = Inr sp"
    using assms
    by (cases "int_field ParseInt env ''AXON_SOURCE_DB_PORT'' ''SOURCE_DB_PORT''
          ''SourceDBPort'' ''int''")
      (simp_all add: NewAxonConfigFromEnv_def)
  obtain tp where 2: "int_field ParseInt env ''AXON_TARGET_DB_PORT'' ''TARGET_DB_PORT''
      ''TargetDBPort'' ''int'' = Inr tp"
    using assms 1
    by (cases "int_field ParseInt env ''AXON_TARGET_DB_PORT'' ''TARGET_DB_PORT''
          ''TargetDBPort'' ''int''")
      (simp_all add: NewAxonConfigFromEnv_def)
  obtain dr where 3: "bool_field ParseBool env ''AXON_SHUTDOWN_AFTER_LAST_CHANGESET''
      ''SHUTDOWN_AFTER_LAST_CHANGESET'' ''ShutdownAfterLastChangeset'' = Inr dr"
    using assms 1 2
    by (cases "bool_field ParseBool env ''AXON_SHUTDOWN_AFTER_LAST_CHANGESET''
          ''SHUTDOWN_AFTER_LAST_CHANGESET'' ''ShutdownAfterLastChangeset''")
      (simp_all add: NewAxonConfigFromEnv_def)
  obtain st where 4: "int_field ParseInt env ''AXON_START_FROM_ID'' ''START_FROM_ID''
      ''StartFromID'' ''int64'' = Inr st"
    using assms 1 2 3
    by (cases "int_field ParseInt env ''AXON_START_FROM_ID'' ''START_FROM_ID''
          ''StartFromID'' ''int64''")
      (simp_all add: NewAxonConfigFromEnv_def)
  show ?thesis
    using assms 1 2 3 4 by (auto simp: NewAxonConfigFromEnv_def)
qed

lemma NewAxonConfigFromEnv_schema:
  assumes "NewAxonConfigFromEnv ParseInt ParseBool env = Inr cfg"
  shows "TargetDBSchema cfg =
           (case env ''AXON_TARGET_DB_SCHEMA'' of
              Some v \<Rightarrow> v
            | None \<Rightarrow> (case env ''TARGET_DB_SCHEMA'' of Some v \<Rightarrow> v | None \<Rightarrow> ''public''))"
  using NewAxonConfigFromEnv_Inr [OF assms]
  by (simp add: string_field_def field_text_def split: option.splits)

lemma NewAxonConfigFromEnv_start:
  assumes "NewAxonConfigFromEnv ParseInt ParseBool env = Inr cfg"
    and "env ''AXON_START_FROM_ID'' = Some v"
  shows "ParseInt v = Inr (StartFromID cfg)"
  using NewAxonConfigFromEnv_Inr [OF assms(1)] assms(2)
  by (simp add: int_field_def field_text_def split: sum.splits)

lemmas env_eval = NewAxonConfigFromEnv_def int_field_def bool_field_def string_field_def
  field_text_def env_start_def env_no_schema_def env_unprefixed_def ParseInt_500_def
  ParseBool_true_def

lemma hd_sorted_least:
  assumes "sorted (map f xs)" and "x \<in> set xs"
  shows "xs \<noteq> [] \<and> f (hd xs) \<le> f x"
  using assms by (cases xs) auto

text \<open>
  C10 (as amended). In a configuration loaded from the environment, \<^verbatim>\<open>TargetDBSchema\<close> is
  the value of \<^verbatim>\<open>AXON_TARGET_DB_SCHEMA\<close>, or else that of \<^verbatim>\<open>TARGET_DB_SCHEMA\<close>, or else
  \<^verbatim>\<open>public\<close>. The override of \<^verbatim>\<open>Run\<close> fires whenever \<^verbatim>\<open>TargetDBSchema\<close> is not empty and
  leaves the changeset alone when it is empty. So when neither variable is set every
  changeset is applied with the schema \<^verbatim>\<open>public\<close>, whatever schema the source recorded;
  and a changeset is applied with a schema of its own, different from the configured
  one, only if the variable the loader reads is set to the empty string.
\<close>

theorem default_schema_public:
  assumes "NewAxonConfigFromEnv ParseInt ParseBool env = Inr cfg"
  shows "TargetDBSchema cfg =
           (case env ''AXON_TARGET_DB_SCHEMA'' of
              Some v \<Rightarrow> v
            | None \<Rightarrow> (case env ''TARGET_DB_SCHEMA'' of Some v \<Rightarrow> v | None \<Rightarrow> ''public'')) \<and>
         (env ''AXON_TARGET_DB_SCHEMA'' = None \<and> env ''TARGET_DB_SCHEMA'' = None \<longrightarrow>
            TargetDBSchema cfg = ''public'' \<and>
            Schema (override_schema cfg c) = ''public'' \<and>
            override_schema cfg c = c\<lparr>Schema := ''public''\<rparr> \<and>
            on_change cfg d a c s = on_change cfg d a (c\<lparr>Schema := ''public''\<rparr>) s) \<and>
         (TargetDBSchema cfg \<noteq> [] \<longrightarrow>
            override_schema cfg c = c\<lparr>Schema := TargetDBSchema cfg\<rparr>) \<and>
         (TargetDBSchema cfg = [] \<longrightarrow> override_schema cfg c = c) \<and>
         (Schema (override_schema cfg c) = Schema c \<and> Schema c \<noteq> TargetDBSchema cfg \<longrightarrow>
            env ''AXON_TARGET_DB_SCHEMA'' = Some [] \<or>
            (env ''AXON_TARGET_DB_SCHEMA'' = None \<and> env ''TARGET_DB_SCHEMA'' = Some []))"
proof (intro conjI impI)
  show t: "TargetDBSchema cfg =
           (case env ''AXON_TARGET_DB_SCHEMA'' of
              Some v \<Rightarrow> v
            | None \<Rightarrow> (case env ''TARGET_DB_SCHEMA'' of Some v \<Rightarrow> v | None \<Rightarrow> ''public''))"
    by (rule NewAxonConfigFromEnv_schema [OF assms])
  {
    assume n: "env ''AXON_TARGET_DB_SCHEMA'' = None \<and> env ''TARGET_DB_SCHEMA'' = None"
    then show p: "TargetDBSchema cfg = ''public''"
      using t by simp
    then show "Schema (override_schema cfg c) = ''public''"
      by (simp add: override_schema_def)
    from p show o: "override_schema cfg c = c\<lparr>Schema := ''public''\<rparr>"
      by (simp add: override_schema_def)
    have "override_schema cfg (c\<lparr>Schema := ''public''\<rparr>) = override_schema cfg c"
      using p by (simp add: override_schema_def)
    then show "on_change cfg d a c s = on_change cfg d a (c\<lparr>Schema := ''public''\<rparr>) s"
      by (simp add: on_change_def)
  }
  {
    assume "TargetDBSchema cfg \<noteq> []"
    then show "override_schema cfg c = c\<lparr>Schema := TargetDBSchema cfg\<rparr>"
      by (simp add: override_schema_def)
  }
  {
    assume "TargetDBSchema cfg = []"
    then show "override_schema cfg c = c"
      by (simp add: override_schema_def)
  }
  {
    assume k: "Schema (override_schema cfg c) = Schema c \<and> Schema c \<noteq> TargetDBSchema cfg"
    then have "TargetDBSchema cfg = []"
      by (auto simp: override_schema_def split: if_splits)
    then show "env ''AXON_TARGET_DB_SCHEMA'' = Some [] \<or>
            (env ''AXON_TARGET_DB_SCHEMA'' = None \<and> env ''TARGET_DB_SCHEMA'' = Some [])"
      using t by (auto split: option.splits)
  }
qed

theorem default_schema_public_witness:
  "(\<exists>cfg. NewAxonConfigFromEnv ParseInt_500 ParseBool_true env_start = Inr cfg \<and>
       env_start ''AXON_TARGET_DB_SCHEMA'' = None \<and> env_start ''TARGET_DB_SCHEMA'' = None \<and>
       TargetDBSchema cfg = ''public'' \<and>
       override_schema cfg (mk_change 1 ChangesetKindInsert ''sales'' [] []) =
         \<lparr>ID = 1, Kind = ChangesetKindInsert, Schema = ''public'', Table = ''t'',
          NewValues = [], OldValues = []\<rparr>) \<and>
   (\<exists>cfg. NewAxonConfigFromEnv ParseInt_500 ParseBool_true env_no_schema = Inr cfg \<and>
       TargetDBSchema cfg = [] \<and>
       override_schema cfg (mk_change 1 ChangesetKindInsert ''sales'' [] []) =
         \<lparr>ID = 1, Kind = ChangesetKindInsert, Schema = ''sales'', Table = ''t'',
          NewValues = [], OldValues = []\<rparr> \<and>
       env_no_schema ''AXON_TARGET_DB_SCHEMA'' = Some []) \<and>
   (\<exists>cfg. NewAxonConfigFromEnv ParseInt_500 ParseBool_true env_unprefixed = Inr cfg \<and>
       TargetDBSchema cfg = ''mirror'' \<and>
       override_schema cfg (mk_change 1 ChangesetKindInsert ''sales'' [] []) =
         \<lparr>ID = 1, Kind = ChangesetKindInsert, Schema = ''mirror'', Table = ''t'',
          NewValues = [], OldValues = []\<rparr>)"
proof -
  let ?c = "mk_change 1 ChangesetKindInsert ''sales'' [] []"
  obtain cfg1 where c1: "NewAxonConfigFromEnv ParseInt_500 ParseBool_true env_start = Inr cfg1"
    by (simp add: env_eval)
  have n: "env_start ''AXON_TARGET_DB_SCHEMA'' = None \<and> env_start ''TARGET_DB_SCHEMA'' = None"
    by (simp add: env_start_def)
  note inst1 = default_schema_public [OF c1, of ?c "spec_deps pkeys_t" axon0 "Inr 1"]
  from inst1 n
  have p: "TargetDBSchema cfg1 = ''public''" and o1: "override_schema cfg1 ?c = ?c\<lparr>Schema := ''public''\<rparr>"
    by blast+
  have first: "\<exists>cfg. NewAxonConfigFromEnv ParseInt_500 ParseBool_true env_start = Inr cfg \<and>
       env_start ''AXON_TARGET_DB_SCHEMA'' = None \<and> env_start ''TARGET_DB_SCHEMA'' = None \<and>
       TargetDBSchema cfg = ''public'' \<and>
       override_schema cfg ?c =
         \<lparr>ID = 1, Kind = ChangesetKindInsert, Schema = ''public'', Table = ''t'',
          NewValues = [], OldValues = []\<rparr>"
    using c1 n p o1 by (auto simp: mk_change_def)
  obtain cfg2 where c2: "NewAxonConfigFromEnv ParseInt_500 ParseBool_true env_no_schema = Inr cfg2"
    by (simp add: env_eval)
  note inst2 = default_schema_public [OF c2, of ?c "spec_deps pkeys_t" axon0 "Inr 1"]
  have e: "env_no_schema ''AXON_TARGET_DB_SCHEMA'' = Some []"
    by (simp add: env_no_schema_def)
  from inst2 e have t2: "TargetDBSchema cfg2 = []"
    by simp
  from inst2 t2 have o2: "override_schema cfg2 ?c = ?c"
    by blast
  have k: "Schema (override_schema cfg2 ?c) = Schema ?c \<and> Schema ?c \<noteq> TargetDBSchema cfg2"
    using t2 o2 by (simp add: mk_change_def)
  from inst2 k have "env_no_schema ''AXON_TARGET_DB_SCHEMA'' = Some [] \<or>
      (env_no_schema ''AXON_TARGET_DB_SCHEMA'' = None \<and> env_no_schema ''TARGET_DB_SCHEMA'' = Some [])"
    by blast
  have second: "\<exists>cfg. NewAxonConfigFromEnv ParseInt_500 ParseBool_true env_no_schema = Inr cfg \<and>
       TargetDBSchema cfg = [] \<and>
       override_schema cfg ?c =
         \<lparr>ID = 1, Kind = ChangesetKindInsert, Schema = ''sales'', Table = ''t'',
          NewValues = [], OldValues = []\<rparr> \<and>
       env_no_schema ''AXON_TARGET_DB_SCHEMA'' = Some []"
    using c2 t2 o2 e by (auto simp: mk_change_def)
  obtain cfg3 where c3: "NewAxonConfigFromEnv ParseInt_500 ParseBool_true env_unprefixed = Inr cfg3"
    by (simp add: env_eval)
  note inst3 = default_schema_public [OF c3, of ?c "spec_deps pkeys_t" axon0 "Inr 1"]
  have u: "env_unprefixed ''AXON_TARGET_DB_SCHEMA'' = None"
     "env_unprefixed ''TARGET_DB_SCHEMA'' = Some ''mirror''"
    by (simp_all add: env_unprefixed_def)
  from inst3 u have t3: "TargetDBSchema cfg3 = ''mirror''"
    by simp
  then have ne: "TargetDBSchema cfg3 \<noteq> []"
    by simp
  from inst3 ne have o3: "override_schema cfg3 ?c = ?c\<lparr>Schema := TargetDBSchema cfg3\<rparr>"
    by blast
  have third: "\<exists>cfg. NewAxonConfigFromEnv ParseInt_500 ParseBool_true env_unprefixed = Inr cfg \<and>
       TargetDBSchema cfg = ''mirror'' \<and>
       override_schema cfg ?c =
         \<lparr>ID = 1, Kind = ChangesetKindInsert, Schema = ''mirror'', Table = ''t'',
          NewValues = [], OldValues = []\<rparr>"
    using c3 t3 o3 by (auto simp: mk_change_def)
  show ?thesis using first second third by blast
qed

text \<open>
  C10 as stated fails: with \<^verbatim>\<open>AXON_TARGET_DB_SCHEMA\<close> not set and \<^verbatim>\<open>TARGET_DB_SCHEMA\<close> set to
  \<^verbatim>\<open>mirror\<close>, the loaded schema is \<^verbatim>\<open>mirror\<close>, not \<^verbatim>\<open>public\<close>, and changesets are
  rewritten to it.
\<close>

theorem unprefixed_schema_replaces_default:
  "env_unprefixed ''AXON_TARGET_DB_SCHEMA'' = None \<and>
   map_sum id TargetDBSchema (NewAxonConfigFromEnv ParseInt_500 ParseBool_true env_unprefixed) =
     Inr ''mirror'' \<and>
   map_sum id (\<lambda>cfg. Schema (override_schema cfg (mk_change 1 ChangesetKindInsert ''sales'' [] [])))
     (NewAxonConfigFromEnv ParseInt_500 ParseBool_true env_unprefixed) = Inr ''mirror''"
  by (simp add: env_eval override_schema_def mk_change_def)

text \<open>
  C9 (against the model of the spec). A configuration loaded from the environment takes
  \<^verbatim>\<open>AXON_START_FROM_ID\<close> as an integer: a loaded configuration holds the value the text
  converts to. \<^verbatim>\<open>Run\<close> constructs its listener from that id, and the stream of the
  listener is ordered, without duplicates, holds exactly the rows with an id of at least
  \<open>max(cursor, start_from_id) + 1\<close>, and begins with that id when the capture table has
  a row for it.
\<close>

theorem start_from_id_listener:
  assumes "NewAxonConfigFromEnv ParseInt ParseBool env = Inr cfg"
    and "env ''AXON_START_FROM_ID'' = Some v"
  shows "ParseInt v = Inr (StartFromID cfg) \<and>
         startFromID (Run_listener cfg) = StartFromID cfg \<and>
         sorted (map ID (spec_ListenForChanges (Run_listener cfg) cursor rows)) \<and>
         distinct (spec_ListenForChanges (Run_listener cfg) cursor rows) \<and>
         set (spec_ListenForChanges (Run_listener cfg) cursor rows) =
           {c \<in> set rows. max cursor (StartFromID cfg) + 1 \<le> ID c} \<and>
         (\<forall>c \<in> set rows. ID c = max cursor (StartFromID cfg) + 1 \<longrightarrow>
            spec_ListenForChanges (Run_listener cfg) cursor rows \<noteq> [] \<and>
            ID (hd (spec_ListenForChanges (Run_listener cfg) cursor rows)) =
              max cursor (StartFromID cfg) + 1)"
proof -
  let ?out = "spec_ListenForChanges (Run_listener cfg) cursor rows"
  let ?m = "max cursor (StartFromID cfg) + 1"
  have p: "ParseInt v = Inr (StartFromID cfg)"
    using NewAxonConfigFromEnv_start [OF assms] .
  have l: "startFromID (Run_listener cfg) = StartFromID cfg"
    by (simp add: Run_listener_def NewNotifyListener_def)
  have so: "sorted (map ID ?out)"
    by (simp add: spec_ListenForChanges_def)
  have di: "distinct ?out"
    by (simp add: spec_ListenForChanges_def)
  have se: "set ?out = {c \<in> set rows. ?m \<le> ID c}"
    using l by (auto simp: spec_ListenForChanges_def)
  have hd: "\<forall>c \<in> set rows. ID c = ?m \<longrightarrow> ?out \<noteq> [] \<and> ID (hd ?out) = ?m"
  proof (intro ballI impI)
    fix c assume c: "c \<in> set rows" "ID c = ?m"
    then have "c \<in> set ?out" using se by simp
    from hd_sorted_least [OF so this] have ne: "?out \<noteq> []" and le: "ID (hd ?out) \<le> ?m"
      using c by auto
    have "hd ?out \<in> set ?out" using ne by simp
    then have "?m \<le> ID (hd ?out)" using se by simp
    then show "?out \<noteq> [] \<and> ID (hd ?out) = ?m" using ne le by simp
  qed
  show ?thesis using p l so di se hd by blast
qed

theorem start_from_id_listener_witness:
  "\<exists>cfg. NewAxonConfigFromEnv ParseInt_500 ParseBool_true env_start = Inr cfg \<and>
      env_start ''AXON_START_FROM_ID'' = Some ''500'' \<and>
      StartFromID cfg = 500 \<and>
      startFromID (Run_listener cfg) = 500 \<and>
      spec_ListenForChanges (Run_listener cfg) 0 rows_demo \<noteq> [] \<and>
      ID (hd (spec_ListenForChanges (Run_listener cfg) 0 rows_demo)) = 501"
proof -
  let ?c = "mk_change 501 ChangesetKindInsert ''public'' [(''id'', ''2'')] []"
  obtain cfg where c: "NewAxonConfigFromEnv ParseInt_500 ParseBool_true env_start = Inr cfg"
    by (simp add: env_eval)
  have v: "env_start ''AXON_START_FROM_ID'' = Some ''500''"
    by (simp add: env_start_def)
  note inst = start_from_id_listener [OF c v, of 0 rows_demo]
  from inst have "ParseInt_500 ''500'' = Inr (StartFromID cfg)"
    by blast
  then have s: "StartFromID cfg = 500"
    by (simp add: ParseInt_500_def)
  from inst s have l: "startFromID (Run_listener cfg) = 500"
    by simp
  have m: "?c \<in> set rows_demo" "ID ?c = max 0 (StartFromID cfg) + 1"
    using s by (simp_all add: rows_demo_def mk_change_def)
  from inst have "\<forall>c \<in> set rows_demo. ID c = max 0 (StartFromID cfg) + 1 \<longrightarrow>
            spec_ListenForChanges (Run_listener cfg) 0 rows_demo \<noteq> [] \<and>
            ID (hd (spec_ListenForChanges (Run_listener cfg) 0 rows_demo)) =
              max 0 (StartFromID cfg) + 1"
    by blast
  with m have "spec_ListenForChanges (Run_listener cfg) 0 rows_demo \<noteq> [] \<and>
            ID (hd (spec_ListenForChanges (Run_listener cfg) 0 rows_demo)) =
              max 0 (StartFromID cfg) + 1"
    by blast
  then have h: "spec_ListenForChanges (Run_listener cfg) 0 rows_demo \<noteq> [] \<and>
            ID (hd (spec_ListenForChanges (Run_listener cfg) 0 rows_demo)) = 501"
    using s by simp
  show ?thesis using c v s l h by blast
qed

section \<open>Properties of Verify\<close>

lemma verify_table_queries:
  "\<exists>qs. queries (vstep_state (verify_table src tgt st table)) = queries st @ qs \<and>
     (qs = [] \<or> (\<exists>sql. checksum_query table = Inr sql \<and> 1 \<le> length (PKeyFields table) \<and>
         (qs = [(SourceConn, sql)] \<or> qs = [(SourceConn, sql), (TargetConn, sql)])))"
  by (auto simp: verify_table_def Let_def Suc_le_eq split: sum.splits)

lemma verify_table_result:
  "(case verify_table src tgt st table of VContinue st' \<Rightarrow> None | VStop r st' \<Rightarrow> Some r)
     = table_result src tgt table"
  by (simp add: table_result_def verify_table_def Let_def split: sum.splits)

lemma verify_table_Continue:
  "verify_table src tgt st table = VContinue st' \<Longrightarrow> table_result src tgt table = None"
  using verify_table_result [of src tgt st table] by simp

lemma verify_table_Stop:
  "verify_table src tgt st table = VStop r st' \<Longrightarrow> table_result src tgt table = Some r"
  using verify_table_result [of src tgt st table] by simp

lemma Verify_loop_first:
  "fst (Verify_loop src tgt st tables) =
     (case List.find (table_stops src tgt) tables of
        None \<Rightarrow> VReturned None
      | Some table \<Rightarrow> the (table_result src tgt table))"
proof (induction tables arbitrary: st)
  case Nil
  then show ?case by simp
next
  case (Cons table tables)
  show ?case
  proof (cases "verify_table src tgt st table")
    case (VContinue st')
    then show ?thesis
      using Cons.IH [of st'] verify_table_Continue [OF VContinue]
      by (simp add: table_stops_def)
  next
    case (VStop r st')
    then show ?thesis
      using verify_table_Stop [OF VStop] by (simp add: table_stops_def)
  qed
qed

lemma table_result_None:
  "table_result src tgt table = None \<longleftrightarrow>
     (PKeyFields table \<noteq> [] \<and>
      (\<exists>sql c. checksum_query table = Inr sql \<and> src sql = Inr c \<and> tgt sql = Inr c))"
  by (auto simp: table_result_def verify_table_def Let_def split: sum.splits)

lemma verify_table_Continue_queries:
  "verify_table src tgt st table = VContinue st' \<Longrightarrow>
     queries st' = queries st @ query_pair table"
  by (auto simp: verify_table_def Let_def query_pair_def split: sum.splits if_splits)

lemma Verify_loop_nil_queries:
  "fst (Verify_loop src tgt st tables) = VReturned None \<Longrightarrow>
     queries (snd (Verify_loop src tgt st tables)) = queries st @ concat (map query_pair tables)"
proof (induction tables arbitrary: st)
  case Nil
  then show ?case by simp
next
  case (Cons table tables)
  show ?case
  proof (cases "verify_table src tgt st table")
    case (VContinue st')
    then show ?thesis
      using Cons.IH [of st'] Cons.prems verify_table_Continue_queries [OF VContinue]
      by simp
  next
    case (VStop r st')
    then have "r = VReturned None" using Cons.prems by simp
    then show ?thesis
      using VStop by (auto simp: verify_table_def Let_def split: sum.splits if_splits)
  qed
qed

lemma Verify_loop_nil_all:
  assumes "fst (Verify_loop src tgt st tables) = VReturned None"
  shows "\<forall>table \<in> set tables. table_result src tgt table = None"
proof -
  have "List.find (table_stops src tgt) tables = None"
  proof (cases "List.find (table_stops src tgt) tables")
    case None then show ?thesis .
  next
    case (Some t)
    have "table_stops src tgt t"
      using Some by (auto simp: find_Some_iff)
    moreover have "fst (Verify_loop src tgt st tables) = the (table_result src tgt t)"
      using Verify_loop_first [of src tgt st tables] Some by simp
    ultimately have "table_result src tgt t = Some (VReturned None)"
      using assms by (auto simp: table_stops_def)
    then show ?thesis
      by (auto simp: table_result_def verify_table_def Let_def split: sum.splits if_splits)
  qed
  then show ?thesis by (auto simp: find_None_iff table_stops_def)
qed

lemma fill_pkColumns_ok:
  "\<forall>p \<in> fst ` set ps. 1 \<le> p \<and> p \<le> int (length cols) \<Longrightarrow>
   \<exists>cols'. fill_pkColumns sch nm ps cols = Inr cols' \<and> length cols' = length cols \<and>
     (\<forall>i < length cols. int i + 1 \<notin> fst ` set ps \<longrightarrow> cols' ! i = cols ! i) \<and>
     (distinct (map fst ps) \<longrightarrow>
        (\<forall>pc \<in> set ps. cols' ! nat (fst pc - 1) = qualified_column sch nm (snd pc)))"
proof (induction ps arbitrary: cols)
  case Nil
  then show ?case by simp
next
  case (Cons pc ps)
  obtain p c where pc: "pc = (p, c)" by (cases pc)
  let ?cols1 = "cols[nat (p - 1) := qualified_column sch nm c]"
  have p: "1 \<le> p" "p \<le> int (length cols)" using Cons.prems pc by auto
  have "\<forall>p \<in> fst ` set ps. 1 \<le> p \<and> p \<le> int (length ?cols1)"
    using Cons.prems by auto
  from Cons.IH [OF this] obtain cols' where
    f: "fill_pkColumns sch nm ps ?cols1 = Inr cols'" and
    l: "length cols' = length ?cols1" and
    u: "\<forall>i < length ?cols1. int i + 1 \<notin> fst ` set ps \<longrightarrow> cols' ! i = ?cols1 ! i" and
    w: "distinct (map fst ps) \<longrightarrow>
        (\<forall>pc \<in> set ps. cols' ! nat (fst pc - 1) = qualified_column sch nm (snd pc))"
    by blast
  have 1: "fill_pkColumns sch nm (pc # ps) cols = Inr cols'"
    using f p pc by simp
  have 2: "length cols' = length cols" using l by simp
  have 3: "\<forall>i < length cols. int i + 1 \<notin> fst ` set (pc # ps) \<longrightarrow> cols' ! i = cols ! i"
  proof (intro allI impI)
    fix i assume i: "i < length cols" and n: "int i + 1 \<notin> fst ` set (pc # ps)"
    have "int i + 1 \<noteq> p" using n pc by auto
    then have "i \<noteq> nat (p - 1)" using p by auto
    moreover have "cols' ! i = ?cols1 ! i" using u i n by auto
    ultimately show "cols' ! i = cols ! i" by simp
  qed
  have 4: "distinct (map fst (pc # ps)) \<longrightarrow>
        (\<forall>q \<in> set (pc # ps). cols' ! nat (fst q - 1) = qualified_column sch nm (snd q))"
  proof (intro impI ballI)
    fix q assume d: "distinct (map fst (pc # ps))" and q: "q \<in> set (pc # ps)"
    show "cols' ! nat (fst q - 1) = qualified_column sch nm (snd q)"
    proof (cases "q = pc")
      case True
      have "p \<notin> fst ` set ps" using d pc by auto
      then have "int (nat (p - 1)) + 1 \<notin> fst ` set ps" using p by simp
      moreover have "nat (p - 1) < length ?cols1" using p by auto
      ultimately have "cols' ! nat (p - 1) = ?cols1 ! nat (p - 1)" using u by blast
      then show ?thesis using True pc p by simp
    next
      case False
      then show ?thesis using w d q by auto
    qed
  qed
  show ?case using 1 2 3 4 by blast
qed

lemma positional_covers:
  assumes "positional table" and "i < length (PKeyFields table)"
  shows "\<exists>c. (int i + 1, c) \<in> set (PKeyFields table)"
proof -
  let ?ps = "map fst (PKeyFields table)"
  let ?n = "length (PKeyFields table)"
  have d: "distinct ?ps" and r: "set ?ps \<subseteq> {1 .. int ?n}"
    using assms(1) by (auto simp: positional_def list_all_iff)
  have "card (set ?ps) = ?n" using d distinct_card [of ?ps] by simp
  moreover have "card {1 .. int ?n} = ?n" by simp
  ultimately have "set ?ps = {1 .. int ?n}"
    using r card_subset_eq [of "{1 .. int ?n}" "set ?ps"] by simp
  then have "int i + 1 \<in> set ?ps" using assms(2) by auto
  then show ?thesis by auto
qed

lemma pkColumns_of_positional:
  assumes "positional table"
  shows "\<exists>cols. pkColumns_of table = Inr cols \<and>
           length cols = length (PKeyFields table) \<and>
           (\<forall>pc \<in> set (PKeyFields table).
              cols ! nat (fst pc - 1) = qualified_column (TSchema table) (TName table) (snd pc)) \<and>
           set cols = (\<lambda>pc. qualified_column (TSchema table) (TName table) (snd pc)) ` set (PKeyFields table)"
proof -
  let ?n = "length (PKeyFields table)"
  let ?q = "\<lambda>pc. qualified_column (TSchema table) (TName table) (snd pc)"
  have "\<forall>p \<in> fst ` set (PKeyFields table). 1 \<le> p \<and> p \<le> int (length (replicate ?n ([]::string)))"
    using assms by (auto simp: positional_def list_all_iff)
  from fill_pkColumns_ok [OF this, of "TSchema table" "TName table"]
  obtain cols where
    f: "pkColumns_of table = Inr cols" and l: "length cols = ?n" and
    w: "\<forall>pc \<in> set (PKeyFields table). cols ! nat (fst pc - 1) = ?q pc"
    using assms by (auto simp: pkColumns_of_def positional_def)
  have "set cols = ?q ` set (PKeyFields table)"
  proof
    show "set cols \<subseteq> ?q ` set (PKeyFields table)"
    proof
      fix x assume "x \<in> set cols"
      then obtain i where i: "i < ?n" "x = cols ! i" using l by (auto simp: in_set_conv_nth)
      from positional_covers [OF assms i(1)] obtain c where
        c: "(int i + 1, c) \<in> set (PKeyFields table)" by blast
      from w c have "cols ! nat (fst (int i + 1, c) - 1) = ?q (int i + 1, c)" by (rule bspec)
      then have "x = ?q (int i + 1, c)" using i by simp
      then show "x \<in> ?q ` set (PKeyFields table)" using c by blast
    qed
    show "?q ` set (PKeyFields table) \<subseteq> set cols"
    proof
      fix x assume "x \<in> ?q ` set (PKeyFields table)"
      then obtain pc where pc: "pc \<in> set (PKeyFields table)" "x = ?q pc" by blast
      then have "1 \<le> fst pc \<and> fst pc \<le> int ?n"
        using assms by (auto simp: positional_def list_all_iff)
      then have "nat (fst pc - 1) < length cols" using l by auto
      then have "cols ! nat (fst pc - 1) \<in> set cols" by simp
      then show "x \<in> set cols" using w pc by simp
    qed
  qed
  then show ?thesis using f l w by blast
qed




lemmas verify_eval = verify_table_def table_result_def table_stops_def checksum_query_def
  pkColumns_of_def checksum_sql_def orderByClause_def qualified_column_def table_label_def
  table_dotted_def dq_def dquote_def conn_const_def table_t_def table_orders_def table_nopk_def table_gap_def
  setup_ok_def Verify_def query_pair_def



lemma Verify_setup_ok:
  assumes "connectSource vs = None" and "prepareSource vs = None" and "connectTarget vs = None"
    and "prepareTarget vs = None" and "GenerateTablesList vs schemas inc exc = Inr tables"
  shows "Verify vs src tgt lg schemas inc exc =
           Verify_loop src tgt \<lparr>vLogger = lg, queries = []\<rparr> tables"
  using assms by (simp add: Verify_def Let_def)

lemma Verify_loop_pass_prefix:
  assumes "\<forall>t \<in> set pre. table_result src tgt t = None"
  shows "\<exists>st'. Verify_loop src tgt st (pre @ rest) = Verify_loop src tgt st' rest \<and>
               queries st' = queries st @ concat (map query_pair pre)"
  using assms
proof (induction pre arbitrary: st)
  case Nil
  show ?case by (rule exI [of _ st]) simp
next
  case (Cons t pre)
  have n: "table_result src tgt t = None" using Cons.prems by simp
  show ?case
  proof (cases "verify_table src tgt st t")
    case (VContinue st1)
    have q1: "queries st1 = queries st @ query_pair t"
      by (rule verify_table_Continue_queries [OF VContinue])
    from Cons.IH [of st1] Cons.prems obtain st' where
      "Verify_loop src tgt st1 (pre @ rest) = Verify_loop src tgt st' rest"
      "queries st' = queries st1 @ concat (map query_pair pre)"
      by auto
    then show ?thesis using VContinue q1 by auto
  next
    case (VStop r st1)
    then show ?thesis using verify_table_Stop [OF VStop] n by simp
  qed
qed

lemma verify_table_differ:
  assumes "PKeyFields table \<noteq> []" and "checksum_query table = Inr sql"
    and "src sql = Inr a" and "tgt sql = Inr b" and "a \<noteq> b"
  shows "\<exists>st'. verify_table src tgt st table =
           VStop (VReturned (Some (''checksums differ for table '' @ TSchema table @ ''.'' @
                    TName table))) st' \<and>
           queries st' = queries st @ [(SourceConn, sql), (TargetConn, sql)]"
  using assms by (simp add: verify_table_def Let_def table_dotted_def)

lemma paired_pair [simp]: "paired (query_pair t @ qs) = paired qs"
  by (simp add: query_pair_def split: sum.splits)

lemma Verify_loop_paired:
  "\<exists>qs. queries (snd (Verify_loop src tgt st tables)) = queries st @ qs \<and> paired qs"
proof (induction tables arbitrary: st)
  case Nil
  then show ?case by simp
next
  case (Cons t tables)
  show ?case
  proof (cases "verify_table src tgt st t")
    case (VContinue st1)
    have q1: "queries st1 = queries st @ query_pair t"
      by (rule verify_table_Continue_queries [OF VContinue])
    from Cons.IH [of st1] obtain qs where
      "queries (snd (Verify_loop src tgt st1 tables)) = queries st1 @ qs" "paired qs"
      by blast
    then have "queries (snd (Verify_loop src tgt st (t # tables))) = queries st @ (query_pair t @ qs)"
      and "paired (query_pair t @ qs)"
      using VContinue q1 by simp_all
    then show ?thesis by blast
  next
    case (VStop r st1)
    obtain qs where qs: "queries (vstep_state (verify_table src tgt st t)) = queries st @ qs"
      and c: "qs = [] \<or> (\<exists>sql. checksum_query t = Inr sql \<and> 1 \<le> length (PKeyFields t) \<and>
         (qs = [(SourceConn, sql)] \<or> qs = [(SourceConn, sql), (TargetConn, sql)]))"
      using verify_table_queries [of src tgt st t] by blast
    have "paired qs" using c by auto
    moreover have "queries (snd (Verify_loop src tgt st (t # tables))) = queries st @ qs"
      using VStop qs by simp
    ultimately show ?thesis by blast
  qed
qed

lemma paired_target_aux:
  "paired (pre @ (TargetConn, q) # post) \<Longrightarrow> pre \<noteq> [] \<and> last pre = (SourceConn, q)"
proof (induction pre rule: paired.induct)
  case 1
  then show ?case by (cases post) auto
next
  case (2 c q0)
  then show ?case by simp
next
  case (3 c q0 c' q1 rest)
  then show ?case by simp
qed

lemma paired_target:
  "paired qs \<Longrightarrow> qs = pre @ (TargetConn, q) # post \<Longrightarrow>
     pre \<noteq> [] \<and> last pre = (SourceConn, q)"
  using paired_target_aux by blast

lemma checksum_query_t: "checksum_query table_t = Inr sql_t"
  by (simp add: verify_eval sql_t_def)

lemma checksum_query_orders: "checksum_query table_orders = Inr sql_orders"
  by (simp add: verify_eval sql_orders_def)

lemma sql_t_neq_orders: "sql_t \<noteq> sql_orders"
  by (simp add: sql_t_def sql_orders_def)

text \<open>
  C5. Once its connections are open and the tables selected, \<^verbatim>\<open>Verify\<close> returns \<^verbatim>\<open>nil\<close>
  exactly when every selected table has a primary key and the same checksum on both
  connections, and it has then executed, for each table in turn, the same query text on
  the source and on the target. When every table before some table has equal checksums
  and that table's two checksums differ as strings, \<^verbatim>\<open>Verify\<close> returns the error
  \<^verbatim>\<open>checksums differ for table\<close> with the schema and the name of that table, having
  queried both connections for it and no table after it. In every run, a query on the
  target directly follows the same text on the source.
\<close>

theorem Verify_compares_checksums:
  assumes "connectSource vs = None" and "prepareSource vs = None" and "connectTarget vs = None"
    and "prepareTarget vs = None" and "GenerateTablesList vs schemas inc exc = Inr tables"
  shows "((fst (Verify vs src tgt lg schemas inc exc) = VReturned None) =
            (\<forall>table \<in> set tables. PKeyFields table \<noteq> [] \<and>
               (\<exists>sql c. checksum_query table = Inr sql \<and> src sql = Inr c \<and> tgt sql = Inr c))) \<and>
         (fst (Verify vs src tgt lg schemas inc exc) = VReturned None \<longrightarrow>
            queries (snd (Verify vs src tgt lg schemas inc exc)) =
              concat (map (\<lambda>table. case checksum_query table of
                                      Inl i \<Rightarrow> []
                                    | Inr sql \<Rightarrow> [(SourceConn, sql), (TargetConn, sql)]) tables)) \<and>
         (tables = pre @ table # post \<and>
          (\<forall>t \<in> set pre. PKeyFields t \<noteq> [] \<and>
             (\<exists>sql c. checksum_query t = Inr sql \<and> src sql = Inr c \<and> tgt sql = Inr c)) \<and>
          PKeyFields table \<noteq> [] \<and> checksum_query table = Inr sql \<and>
          src sql = Inr a \<and> tgt sql = Inr b \<and> a \<noteq> b \<longrightarrow>
            fst (Verify vs src tgt lg schemas inc exc) =
              VReturned (Some (''checksums differ for table '' @ TSchema table @ ''.'' @
                                TName table)) \<and>
            queries (snd (Verify vs src tgt lg schemas inc exc)) =
              concat (map (\<lambda>table. case checksum_query table of
                                      Inl i \<Rightarrow> []
                                    | Inr sql \<Rightarrow> [(SourceConn, sql), (TargetConn, sql)]) pre) @
              [(SourceConn, sql), (TargetConn, sql)]) \<and>
         (queries (snd (Verify vs src tgt lg schemas inc exc)) = before @ (TargetConn, q) # after \<longrightarrow>
            before \<noteq> [] \<and> last before = (SourceConn, q))"
proof -
  let ?st = "\<lparr>vLogger = lg, queries = []\<rparr>"
  let ?pair = "\<lambda>table. case checksum_query table of
                          Inl i \<Rightarrow> []
                        | Inr sql \<Rightarrow> [(SourceConn, sql), (TargetConn, sql)]"
  have v: "Verify vs src tgt lg schemas inc exc = Verify_loop src tgt ?st tables"
    by (rule Verify_setup_ok [OF assms])
  have qp: "query_pair = ?pair"
    by (rule ext) (simp add: query_pair_def)
  have 1: "(fst (Verify vs src tgt lg schemas inc exc) = VReturned None) =
            (\<forall>table \<in> set tables. PKeyFields table \<noteq> [] \<and>
               (\<exists>sql c. checksum_query table = Inr sql \<and> src sql = Inr c \<and> tgt sql = Inr c))"
  proof
    assume "fst (Verify vs src tgt lg schemas inc exc) = VReturned None"
    then have "\<forall>table \<in> set tables. table_result src tgt table = None"
      using v Verify_loop_nil_all [of src tgt ?st tables] by simp
    then show "\<forall>table \<in> set tables. PKeyFields table \<noteq> [] \<and>
               (\<exists>sql c. checksum_query table = Inr sql \<and> src sql = Inr c \<and> tgt sql = Inr c)"
      by (simp add: table_result_None)
  next
    assume "\<forall>table \<in> set tables. PKeyFields table \<noteq> [] \<and>
               (\<exists>sql c. checksum_query table = Inr sql \<and> src sql = Inr c \<and> tgt sql = Inr c)"
    then have "\<forall>table \<in> set tables. \<not> table_stops src tgt table"
      by (simp add: table_result_None table_stops_def)
    then have "List.find (table_stops src tgt) tables = None"
      by (simp add: find_None_iff)
    then show "fst (Verify vs src tgt lg schemas inc exc) = VReturned None"
      using v Verify_loop_first [of src tgt ?st tables] by simp
  qed
  have 2: "fst (Verify vs src tgt lg schemas inc exc) = VReturned None \<longrightarrow>
            queries (snd (Verify vs src tgt lg schemas inc exc)) = concat (map ?pair tables)"
    using v Verify_loop_nil_queries [of src tgt ?st tables] qp by simp
  have 3: "tables = pre @ table # post \<and>
          (\<forall>t \<in> set pre. PKeyFields t \<noteq> [] \<and>
             (\<exists>sql c. checksum_query t = Inr sql \<and> src sql = Inr c \<and> tgt sql = Inr c)) \<and>
          PKeyFields table \<noteq> [] \<and> checksum_query table = Inr sql \<and>
          src sql = Inr a \<and> tgt sql = Inr b \<and> a \<noteq> b \<longrightarrow>
            fst (Verify vs src tgt lg schemas inc exc) =
              VReturned (Some (''checksums differ for table '' @ TSchema table @ ''.'' @
                                TName table)) \<and>
            queries (snd (Verify vs src tgt lg schemas inc exc)) =
              concat (map ?pair pre) @ [(SourceConn, sql), (TargetConn, sql)]"
  proof (intro impI)
    assume h: "tables = pre @ table # post \<and>
          (\<forall>t \<in> set pre. PKeyFields t \<noteq> [] \<and>
             (\<exists>sql c. checksum_query t = Inr sql \<and> src sql = Inr c \<and> tgt sql = Inr c)) \<and>
          PKeyFields table \<noteq> [] \<and> checksum_query table = Inr sql \<and>
          src sql = Inr a \<and> tgt sql = Inr b \<and> a \<noteq> b"
    then have "\<forall>t \<in> set pre. table_result src tgt t = None"
      by (simp add: table_result_None)
    from Verify_loop_pass_prefix [OF this, of ?st "table # post"] obtain st1 where
      l: "Verify_loop src tgt ?st (pre @ table # post) = Verify_loop src tgt st1 (table # post)"
      and q1: "queries st1 = concat (map query_pair pre)"
      by auto
    from h have d: "PKeyFields table \<noteq> []" "checksum_query table = Inr sql" "src sql = Inr a"
      "tgt sql = Inr b" "a \<noteq> b" by simp_all
    from verify_table_differ [where src = src and tgt = tgt and a = a and b = b and st = st1
        and table = table and sql = sql, OF d] obtain st2 where
      s: "verify_table src tgt st1 table =
           VStop (VReturned (Some (''checksums differ for table '' @ TSchema table @ ''.'' @
                    TName table))) st2"
      and q2: "queries st2 = queries st1 @ [(SourceConn, sql), (TargetConn, sql)]"
      by blast
    have "Verify vs src tgt lg schemas inc exc =
        (VReturned (Some (''checksums differ for table '' @ TSchema table @ ''.'' @ TName table)), st2)"
      using v h l s by simp
    then show "fst (Verify vs src tgt lg schemas inc exc) =
              VReturned (Some (''checksums differ for table '' @ TSchema table @ ''.'' @
                                TName table)) \<and>
            queries (snd (Verify vs src tgt lg schemas inc exc)) =
              concat (map ?pair pre) @ [(SourceConn, sql), (TargetConn, sql)]"
      using q1 q2 qp by simp
  qed
  have 4: "queries (snd (Verify vs src tgt lg schemas inc exc)) = before @ (TargetConn, q) # after \<longrightarrow>
            before \<noteq> [] \<and> last before = (SourceConn, q)"
  proof
    assume e: "queries (snd (Verify vs src tgt lg schemas inc exc)) = before @ (TargetConn, q) # after"
    from Verify_loop_paired [of src tgt ?st tables] have "paired (queries (snd (Verify_loop src tgt ?st tables)))"
      by auto
    then have "paired (queries (snd (Verify vs src tgt lg schemas inc exc)))"
      using v by simp
    from paired_target [OF this e] show "before \<noteq> [] \<and> last before = (SourceConn, q)" .
  qed
  show ?thesis using 1 2 3 4 by blast
qed

text \<open>
  The theorem on two runs, with the query texts written out: equal checksums for both
  tables, and a target whose checksum for the second of three tables differs.
\<close>

theorem Verify_compares_checksums_witness:
  "fst (Verify (setup_ok [table_t, table_orders]) (conn_const ''abc'') (conn_const ''abc'')
          [] [''public''] [] []) = VReturned None \<and>
   queries (snd (Verify (setup_ok [table_t, table_orders]) (conn_const ''abc'') (conn_const ''abc'')
          [] [''public''] [] [])) =
     [(SourceConn, sql_t), (TargetConn, sql_t), (SourceConn, sql_orders), (TargetConn, sql_orders)] \<and>
   fst (Verify (setup_ok [table_t, table_orders, table_nopk]) (conn_const ''abc'')
          (conn_differs_on sql_orders) [] [''public''] [] []) =
     VReturned (Some ''checksums differ for table public.orders'') \<and>
   queries (snd (Verify (setup_ok [table_t, table_orders, table_nopk]) (conn_const ''abc'')
          (conn_differs_on sql_orders) [] [''public''] [] [])) =
     [(SourceConn, sql_t), (TargetConn, sql_t), (SourceConn, sql_orders), (TargetConn, sql_orders)] \<and>
   last [(SourceConn, sql_t), (TargetConn, sql_t), (SourceConn, sql_orders)] =
     (SourceConn, sql_orders)"
proof -
  let ?ok = "setup_ok [table_t, table_orders]"
  let ?bad = "setup_ok [table_t, table_orders, table_nopk]"
  let ?src = "conn_const ''abc''"
  let ?tgt = "conn_differs_on sql_orders"
  let ?qs = "[(SourceConn, sql_t), (TargetConn, sql_t), (SourceConn, sql_orders),
      (TargetConn, sql_orders)]"
  have s1: "connectSource ?ok = None" "prepareSource ?ok = None" "connectTarget ?ok = None"
    "prepareTarget ?ok = None" "GenerateTablesList ?ok [''public''] [] [] = Inr [table_t, table_orders]"
    by (simp_all add: setup_ok_def)
  have s2: "connectSource ?bad = None" "prepareSource ?bad = None" "connectTarget ?bad = None"
    "prepareTarget ?bad = None"
    "GenerateTablesList ?bad [''public''] [] [] = Inr [table_t, table_orders, table_nopk]"
    by (simp_all add: setup_ok_def)
  have pk: "PKeyFields table_t \<noteq> []" "PKeyFields table_orders \<noteq> []"
    by (simp_all add: table_t_def table_orders_def)
  note i1 = Verify_compares_checksums [OF s1, of ?src ?src "[]" "[]" table_t "[]" sql_t
      "''abc''" "''abc''" "[(SourceConn, sql_t)]" sql_t
      "[(SourceConn, sql_orders), (TargetConn, sql_orders)]"]
  have all: "\<forall>table \<in> set [table_t, table_orders]. PKeyFields table \<noteq> [] \<and>
      (\<exists>sql c. checksum_query table = Inr sql \<and> ?src sql = Inr c \<and> ?src sql = Inr c)"
    using pk checksum_query_t checksum_query_orders by (simp add: conn_const_def)
  from i1 all have r1: "fst (Verify ?ok ?src ?src [] [''public''] [] []) = VReturned None"
    by blast
  from i1 r1 have q1: "queries (snd (Verify ?ok ?src ?src [] [''public''] [] [])) = ?qs"
    by (simp add: checksum_query_t checksum_query_orders)
  from i1 q1 have l1: "last [(SourceConn, sql_t), (TargetConn, sql_t), (SourceConn, sql_orders)] =
      (SourceConn, sql_orders)"
    by simp
  note i2 = Verify_compares_checksums [OF s2, of ?src ?tgt "[]" "[table_t]" table_orders
      "[table_nopk]" sql_orders "''abc''" "''abd''" "[]" sql_t "[]"]
  have pre: "\<forall>t \<in> set [table_t]. PKeyFields t \<noteq> [] \<and>
      (\<exists>sql c. checksum_query t = Inr sql \<and> ?src sql = Inr c \<and> ?tgt sql = Inr c)"
    using pk checksum_query_t sql_t_neq_orders
    by (simp add: conn_const_def conn_differs_on_def)
  have d: "?src sql_orders = Inr ''abc''" "?tgt sql_orders = Inr ''abd''" "''abc'' \<noteq> ''abd''"
    by (simp_all add: conn_const_def conn_differs_on_def)
  from i2 pre pk(2) checksum_query_orders d
  have r2: "fst (Verify ?bad ?src ?tgt [] [''public''] [] []) =
      VReturned (Some (''checksums differ for table '' @ TSchema table_orders @ ''.'' @
        TName table_orders))"
    and q2: "queries (snd (Verify ?bad ?src ?tgt [] [''public''] [] [])) =
      concat (map (\<lambda>table. case checksum_query table of
                              Inl i \<Rightarrow> []
                            | Inr sql \<Rightarrow> [(SourceConn, sql), (TargetConn, sql)]) [table_t]) @
      [(SourceConn, sql_orders), (TargetConn, sql_orders)]"
    by simp_all
  from r2 have r2': "fst (Verify ?bad ?src ?tgt [] [''public''] [] []) =
      VReturned (Some ''checksums differ for table public.orders'')"
    by (simp add: table_orders_def)
  from q2 have q2': "queries (snd (Verify ?bad ?src ?tgt [] [''public''] [] [])) = ?qs"
    by (simp add: checksum_query_t)
  show ?thesis using r1 q1 r2' q2' l1 by blast
qed

text \<open>
  C6 (as amended). For a table with at least one primary-key field whose fields are
  recorded at the positions \<open>1, \<dots>, n\<close>, each once, building the ORDER BY clause is
  well-defined: the column at position \<open>p\<close> is written to slot \<open>p - 1\<close> of a slice as long
  as the key, no index is out of range and \<^verbatim>\<open>Verify\<close> does not panic, the slice ends up
  holding exactly the qualified primary-key columns, and the query \<^verbatim>\<open>Verify\<close> executes
  orders by all of them.
\<close>

theorem Verify_orders_by_full_primary_key:
  assumes "1 \<le> length (PKeyFields table)" and "positional table"
  shows "\<exists>pkColumns.
           pkColumns_of table = Inr pkColumns \<and>
           length pkColumns = length (PKeyFields table) \<and>
           (\<forall>pc \<in> set (PKeyFields table).
              pkColumns ! nat (fst pc - 1) =
                qualified_column (TSchema table) (TName table) (snd pc)) \<and>
           set pkColumns =
             (\<lambda>pc. qualified_column (TSchema table) (TName table) (snd pc)) ` set (PKeyFields table) \<and>
           checksum_query table =
             Inr (''SELECT pg_md5_hashagg(md5(CAST(('' @ table_label table @ ''.*)AS TEXT))'' @
                  ''ORDER BY '' @ Join pkColumns '','' @ '') FROM '' @ table_label table) \<and>
           (\<forall>i. fst (Verify_loop src tgt st [table]) \<noteq> IndexPanic i) \<and>
           (\<exists>rest. queries (snd (Verify_loop src tgt st [table])) =
              queries st @
              (SourceConn,
               ''SELECT pg_md5_hashagg(md5(CAST(('' @ table_label table @ ''.*)AS TEXT))'' @
               ''ORDER BY '' @ Join pkColumns '','' @ '') FROM '' @ table_label table) # rest)"
proof -
  from pkColumns_of_positional [OF assms(2)] obtain cols where
    c: "pkColumns_of table = Inr cols" "length cols = length (PKeyFields table)"
       "\<forall>pc \<in> set (PKeyFields table).
              cols ! nat (fst pc - 1) = qualified_column (TSchema table) (TName table) (snd pc)"
       "set cols = (\<lambda>pc. qualified_column (TSchema table) (TName table) (snd pc)) ` set (PKeyFields table)"
    by blast
  let ?sql = "''SELECT pg_md5_hashagg(md5(CAST(('' @ table_label table @ ''.*)AS TEXT))'' @
                  ''ORDER BY '' @ Join cols '','' @ '') FROM '' @ table_label table"
  have q: "checksum_query table = Inr ?sql"
    using c(1) by (simp add: checksum_query_def checksum_sql_def orderByClause_def table_label_def)
  have ne: "PKeyFields table \<noteq> []"
    using assms(1) by auto
  have np: "\<forall>i. fst (Verify_loop src tgt st [table]) \<noteq> IndexPanic i"
    using q ne by (auto simp: verify_table_def Let_def split: sum.splits)
  have ex: "\<exists>rest. queries (snd (Verify_loop src tgt st [table])) = queries st @ (SourceConn, ?sql) # rest"
    using q ne by (auto simp: verify_table_def Let_def split: sum.splits)
  show ?thesis using c q np ex by blast
qed

text \<open>
  The theorem on a table with a key of two columns recorded in reverse order, with the
  slice and the query text written out.
\<close>

theorem Verify_orders_by_full_primary_key_witness:
  "1 \<le> length (PKeyFields table_orders) \<and> positional table_orders \<and>
   pkColumns_of table_orders =
     Inr [[CHR 0x22] @ ''public'' @ [CHR 0x22] @ ''.'' @ [CHR 0x22] @ ''orders'' @ [CHR 0x22] @
          ''.'' @ [CHR 0x22] @ ''order_id'' @ [CHR 0x22],
          [CHR 0x22] @ ''public'' @ [CHR 0x22] @ ''.'' @ [CHR 0x22] @ ''orders'' @ [CHR 0x22] @
          ''.'' @ [CHR 0x22] @ ''line'' @ [CHR 0x22]] \<and>
   checksum_query table_orders = Inr sql_orders \<and>
   fst (Verify (setup_ok [table_orders]) (conn_const ''abc'') (conn_const ''abc'')
          [] [''public''] [] []) = VReturned None \<and>
   queries (snd (Verify (setup_ok [table_orders]) (conn_const ''abc'') (conn_const ''abc'')
          [] [''public''] [] [])) = [(SourceConn, sql_orders), (TargetConn, sql_orders)]"
proof -
  let ?st = "\<lparr>vLogger = [], queries = []\<rparr>"
  let ?src = "conn_const ''abc''"
  have h1: "1 \<le> length (PKeyFields table_orders)"
    by (simp add: table_orders_def)
  have h2: "positional table_orders"
    by (simp add: positional_def table_orders_def)
  from Verify_orders_by_full_primary_key [OF h1 h2, of ?src ?src ?st]
  obtain cols rest where
    p: "pkColumns_of table_orders = Inr cols" and
    l: "length cols = length (PKeyFields table_orders)" and
    n: "\<forall>pc \<in> set (PKeyFields table_orders).
          cols ! nat (fst pc - 1) =
            qualified_column (TSchema table_orders) (TName table_orders) (snd pc)" and
    q: "checksum_query table_orders =
          Inr (''SELECT pg_md5_hashagg(md5(CAST(('' @ table_label table_orders @ ''.*)AS TEXT))'' @
               ''ORDER BY '' @ Join cols '','' @ '') FROM '' @ table_label table_orders)" and
    np: "\<forall>i. fst (Verify_loop ?src ?src ?st [table_orders]) \<noteq> IndexPanic i" and
    r: "queries (snd (Verify_loop ?src ?src ?st [table_orders])) =
          queries ?st @
          (SourceConn,
           ''SELECT pg_md5_hashagg(md5(CAST(('' @ table_label table_orders @ ''.*)AS TEXT))'' @
           ''ORDER BY '' @ Join cols '','' @ '') FROM '' @ table_label table_orders) # rest"
    by blast
  have len: "length cols = 2"
    using l by (simp add: table_orders_def)
  have c0: "cols ! 0 = qualified_column ''public'' ''orders'' ''order_id''"
    and c1: "cols ! 1 = qualified_column ''public'' ''orders'' ''line''"
    using n by (simp_all add: table_orders_def)
  have cols: "cols = [qualified_column ''public'' ''orders'' ''order_id'',
      qualified_column ''public'' ''orders'' ''line'']"
    using len c0 c1 by (auto simp: list_eq_iff_nth_eq less_Suc_eq numeral_2_eq_2)
  have e1: "pkColumns_of table_orders =
     Inr [[CHR 0x22] @ ''public'' @ [CHR 0x22] @ ''.'' @ [CHR 0x22] @ ''orders'' @ [CHR 0x22] @
          ''.'' @ [CHR 0x22] @ ''order_id'' @ [CHR 0x22],
          [CHR 0x22] @ ''public'' @ [CHR 0x22] @ ''.'' @ [CHR 0x22] @ ''orders'' @ [CHR 0x22] @
          ''.'' @ [CHR 0x22] @ ''line'' @ [CHR 0x22]]"
    using p cols by (simp add: qualified_column_def dq_def dquote_def)
  have e2: "checksum_query table_orders = Inr sql_orders"
    using q cols
    by (simp add: qualified_column_def dq_def dquote_def table_label_def table_orders_def
        sql_orders_def)
  have e3: "fst (Verify (setup_ok [table_orders]) ?src ?src [] [''public''] [] []) = VReturned None"
    using e2 by (simp add: Verify_def setup_ok_def verify_table_def conn_const_def Let_def
        table_orders_def)
  have e4: "queries (snd (Verify (setup_ok [table_orders]) ?src ?src [] [''public''] [] [])) =
      [(SourceConn, sql_orders), (TargetConn, sql_orders)]"
    using e2 by (simp add: Verify_def setup_ok_def verify_table_def conn_const_def Let_def
        table_orders_def)
  show ?thesis using h1 h2 e1 e2 e3 e4 by blast
qed

text \<open>
  C6 as stated fails: a table with one primary-key field recorded at position 2 has
  \<open>|pkey_fields| \<ge> 1\<close>, and the write to slot 1 of a slice of length 1 is out of range;
  \<^verbatim>\<open>Verify\<close> panics before it executes any query.
\<close>

theorem Verify_panics_on_position_gap:
  "1 \<le> length (PKeyFields table_gap) \<and>
   pkColumns_of table_gap = Inl 1 \<and>
   Verify (setup_ok [table_gap]) (conn_const ''abc'') (conn_const ''abc'') [] [''public''] [] [] =
     (IndexPanic 1,
      \<lparr>vLogger = [Entry InfoLevel
                    [(''table'', [CHR 0x22] @ ''public'' @ [CHR 0x22] @ ''.'' @ [CHR 0x22] @ ''g'' @
                                 [CHR 0x22])]
                    ''Verifying checksum''],
       queries = []\<rparr>)"
  by (simp add: verify_eval)

text \<open>
  Likewise a position \<open>0\<close> indexes slot \<open>-1\<close>, where Go panics.
\<close>

lemma pkColumns_of_zero_based:
  "pkColumns_of \<lparr>TSchema = ''public'', TName = ''t'', PKeyFields = [(0, ''id'')]\<rparr> = Inl (- 1)"
  by (simp add: pkColumns_of_def)

end
